theory Spec2Isabelle
  imports Complex_Main
begin

section \<open>JavaScript values\<close>

text \<open>
  The values that flow through the drawing wrapper are style values and coordinates:
  primitives, and host objects such as a canvas gradient, which JavaScript compares by
  reference. A number is idealised as a real (no claim below computes with one);
  \<open>NaN\<close> and the infinities are separate values because truthiness, strict equality
  and JSON treat them differently.
\<close>

datatype jsval =
    JUndefined
  | JNull
  | JBool bool
  | JNum real
  | JNaN
  | JInfinity bool \<comment> \<open>\<open>True\<close> for \<open>+Infinity\<close>\<close>
  | JStr string
  | JHost nat

text \<open>
  A number alone, where the code compares one with \<open>0\<close>: finite, \<open>NaN\<close>, or an
  infinity (\<open>True\<close> for \<open>+Infinity\<close>).
\<close>

datatype jsnumber = NumFinite real | NumNaN | NumInfinity bool

fun number_val :: "jsnumber \<Rightarrow> jsval" where
  "number_val (NumFinite x) = JNum x"
| "number_val NumNaN = JNaN"
| "number_val (NumInfinity b) = JInfinity b"

text \<open>\<open>n < 0\<close>.\<close>

fun negative :: "jsnumber \<Rightarrow> bool" where
  "negative (NumFinite x) = (x < 0)"
| "negative NumNaN = False"
| "negative (NumInfinity b) = (\<not> b)"

text \<open>The truthiness test of \<open>if (v)\<close>, \<open>!v\<close>, \<open>a && b\<close> and \<open>a || b\<close>.\<close>

fun truthy :: "jsval \<Rightarrow> bool" where
  "truthy JUndefined = False"
| "truthy JNull = False"
| "truthy (JBool b) = b"
| "truthy (JNum x) = (x \<noteq> 0)"
| "truthy JNaN = False"
| "truthy (JInfinity _) = True"
| "truthy (JStr s) = (s \<noteq> [])"
| "truthy (JHost _) = True"

text \<open>\<open>a !== b\<close>: by value on primitives, by reference on host objects; \<open>NaN\<close> differs from itself.\<close>

definition strict_neq :: "jsval \<Rightarrow> jsval \<Rightarrow> bool" where
  "strict_neq a b = (a \<noteq> b \<or> a = JNaN)"

text \<open>\<open>a || b\<close>.\<close>

definition or_js :: "jsval \<Rightarrow> jsval \<Rightarrow> jsval" where
  "or_js a b = (if truthy a then a else b)"

text \<open>
  Structured data (the strokes of the host widget, and what \<open>JSON.stringify\<close> walks
  through): arrays and plain objects over the values above, and image elements, given
  by their \<open>src\<close>. An object is the list of its own enumerable properties, in order.
\<close>

datatype jtree =
    Leaf jsval
  | Arr "jtree list"
  | Obj "(string \<times> jtree) list"
  | ImgElem string

text \<open>
  An argument handed to a canvas method, or recorded in the replay log: a value, or an
  \<open>Image\<close> element created by \<open>new Image()\<close>, given by its \<open>src\<close>.
\<close>

datatype arg = Val jsval | Img string

datatype js_error = TypeError | SyntaxError | Error string

text \<open>What a call returns when it does not throw: \<open>this\<close>, nothing, or a value.\<close>

datatype jsret = RThis | RUndefined | RValue jtree

section \<open>jSketch: the canvas wrapper (jsketch.js)\<close>

text \<open>The methods of the wrapper, as the prototype lists them.\<close>

text \<open>
  The browser's 2D context is not part of the repository. It is modelled by the trace of
  what the wrapper does to it: the native methods it calls and the properties it assigns.
  A canvas element carries its dimensions and the trace of its context. A gradient that
  the context creates is the browser's too, known by its reference; a call of one of its
  methods goes to the same trace. Native calls are taken not to throw.
\<close>

datatype ctx_event =
    Call string "arg list"
  | SetProp string jsval
  | GradientCall nat string "arg list"

record canvas =
  width :: jsval
  height :: jsval
  ctx2d :: "ctx_event list"

text \<open>
  The \<open>elem\<close> argument of the constructor and of \<open>setContext\<close>: a falsy non-string
  value (\<open>undefined\<close>, \<open>null\<close>), a string, a canvas element, or any other truthy value,
  which has no \<open>getContext\<close> method.
\<close>

datatype elem = ENull | EString string | ECanvas canvas | EOther

fun truthy_elem :: "elem \<Rightarrow> bool" where
  "truthy_elem ENull = False"
| "truthy_elem (EString s) = (s \<noteq> [])"
| "truthy_elem (ECanvas _) = True"
| "truthy_elem EOther = True"

text \<open>An entry of the replay log: \<open>{ method, args }\<close> (\<open>args\<close> may be absent) or \<open>{ property, value }\<close>.\<close>

datatype call_entry = Method string "arg list option" | Property string jsval

type_synonym options = "(string \<times> jsval) list"

text \<open>
  The fields of a jSketch instance. \<open>canvas\<close> is whatever was last assigned to
  \<open>this.canvas\<close>; \<open>ctx\<close> is \<open>this.context\<close>, \<open>None\<close> while it is undefined, and
  else the trace of the 2D context that \<open>getContext\<close> returned; \<open>data\<close> is
  \<open>None\<close> while \<open>this.data\<close> is undefined. \<open>loading\<close> holds the images created by
  \<open>drawImage\<close> whose load has neither finished nor failed: \<open>src\<close>, \<open>x\<close>, \<open>y\<close>.
\<close>

record jsketch =
  canvas :: elem
  ctx :: "ctx_event list option"
  stageWidth :: jsval
  stageHeight :: jsval
  data :: "options option"
  callStack :: "call_entry list"
  loading :: "(string \<times> jsval \<times> jsval) list"

type_synonym 's res = "(js_error + jsret) \<times> 's"

type_synonym jres = "jsketch res"

text \<open>
  Statements run in order and stop at the first exception, keeping what was mutated up to
  there; the value of the block is that of its last statement, the \<open>return\<close>.
\<close>

fun block :: "('s \<Rightarrow> 's res) list \<Rightarrow> 's \<Rightarrow> 's res" where
  "block [] s = (Inr RUndefined, s)"
| "block [m] s = m s"
| "block (m # ms) s = (case m s of (Inl e, s') \<Rightarrow> (Inl e, s') | (Inr _, s') \<Rightarrow> block ms s')"

text \<open>\<open>a.b()\<close> on the result of a call: the receiver of \<open>b\<close> is what \<open>a\<close> returned.\<close>

definition chain :: "(jsketch \<Rightarrow> jres) \<Rightarrow> (jsketch \<Rightarrow> jres) \<Rightarrow> jsketch \<Rightarrow> jres" where
  "chain m1 m2 s =
     (case m1 s of
        (Inl e, s') \<Rightarrow> (Inl e, s')
      | (Inr RThis, s') \<Rightarrow> m2 s'
      | (Inr _, s') \<Rightarrow> (Inl TypeError, s'))"

definition return_this :: "jsketch \<Rightarrow> jres" where
  "return_this s = (Inr RThis, s)"

text \<open>\<open>this.context.name(args)\<close>.\<close>

definition native :: "string \<Rightarrow> arg list \<Rightarrow> jsketch \<Rightarrow> jres" where
  "native name args s =
     (case ctx s of
        None \<Rightarrow> (Inl TypeError, s)
      | Some tr \<Rightarrow> (Inr RUndefined, s\<lparr>ctx := Some (tr @ [Call name args])\<rparr>))"

text \<open>\<open>this.context[p] = v\<close>.\<close>

definition set_context_prop :: "string \<Rightarrow> jsval \<Rightarrow> jsketch \<Rightarrow> jres" where
  "set_context_prop p v s =
     (case ctx s of
        None \<Rightarrow> (Inl TypeError, s)
      | Some tr \<Rightarrow> (Inr RUndefined, s\<lparr>ctx := Some (tr @ [SetProp p v])\<rparr>))"

text \<open>\<open>this.callStack.push(e)\<close>.\<close>

definition push :: "call_entry \<Rightarrow> jsketch \<Rightarrow> jres" where
  "push e s = (Inr RUndefined, s\<lparr>callStack := callStack s @ [e]\<rparr>)"

text \<open>\<open>o[k]\<close> and \<open>o[k] = v\<close> on a plain object: a new key goes last.\<close>

fun get_prop :: "options \<Rightarrow> string \<Rightarrow> jsval" where
  "get_prop [] k = JUndefined"
| "get_prop ((k', v) # ps) k = (if k' = k then v else get_prop ps k)"

fun put_prop :: "options \<Rightarrow> string \<Rightarrow> jsval \<Rightarrow> options" where
  "put_prop [] k v = [(k, v)]"
| "put_prop ((k', v') # ps) k v = (if k' = k then (k, v) # ps else (k', v') # put_prop ps k v)"

text \<open>The \<open>i\<close>-th actual argument, \<open>undefined\<close> when fewer were passed.\<close>

definition argument :: "jsval list \<Rightarrow> nat \<Rightarrow> jsval" where
  "argument args i = (if i < length args then args ! i else JUndefined)"

subsection \<open>setContext, saveGraphics, restoreGraphics, setDefaults\<close>

definition setContext :: "elem \<Rightarrow> jsketch \<Rightarrow> jres" where
  "setContext el s =
     (if \<not> truthy_elem el then (Inl (Error ''No canvas element specified.''), s)
      else
        (case el of
           ECanvas c \<Rightarrow> (Inr RThis, s\<lparr>canvas := el, ctx := Some (ctx2d c)\<rparr>)
         | _ \<Rightarrow> (Inl TypeError, s\<lparr>canvas := el\<rparr>)))"

text \<open>
  The loop of \<open>saveGraphics\<close> over the given options. \<open>this.data[opt]\<close> is read only
  when \<open>val\<close> is truthy, and throws when \<open>this.data\<close> is undefined.
\<close>

fun saveGraphics_loop :: "options \<Rightarrow> jsketch \<Rightarrow> jres" where
  "saveGraphics_loop [] s = (Inr RUndefined, s)"
| "saveGraphics_loop ((opt, val) # rest) s =
     (if truthy val then
        (case data s of
           None \<Rightarrow> (Inl TypeError, s)
         | Some d \<Rightarrow>
             if strict_neq val (get_prop d opt)
             then saveGraphics_loop rest
                    (s\<lparr>data := Some (put_prop d opt val),
                       callStack := callStack s @ [Property opt val]\<rparr>)
             else saveGraphics_loop rest s)
      else saveGraphics_loop rest s)"

definition saveGraphics :: "options option \<Rightarrow> jsketch \<Rightarrow> jres" where
  "saveGraphics opts =
     block [saveGraphics_loop (case opts of None \<Rightarrow> [] | Some os \<Rightarrow> os), return_this]"

fun restoreGraphics_loop :: "options \<Rightarrow> jsketch \<Rightarrow> jres" where
  "restoreGraphics_loop [] s = (Inr RUndefined, s)"
| "restoreGraphics_loop ((opt, val) # rest) s =
     (case set_context_prop opt val s of
        (Inl e, s') \<Rightarrow> (Inl e, s')
      | (Inr _, s') \<Rightarrow> restoreGraphics_loop rest s')"

definition restoreGraphics :: "jsketch \<Rightarrow> jres" where
  "restoreGraphics s =
     block [restoreGraphics_loop (case data s of None \<Rightarrow> [] | Some d \<Rightarrow> d), return_this] s"

text \<open>The defaults of \<open>setDefaults\<close>, from \<open>this.data\<close>, which must not be undefined.\<close>

definition default_options :: "options \<Rightarrow> options" where
  "default_options d =
     [(''fillStyle'', or_js (get_prop d ''fillStyle'') (JStr ''#F00'')),
      (''strokeStyle'', or_js (get_prop d ''strokeStyle'') (JStr ''#F0F'')),
      (''lineWidth'', or_js (get_prop d ''lineWidth'') (JNum 2)),
      (''lineCap'', or_js (get_prop d ''lineCap'') (JStr ''round'')),
      (''lineJoin'', or_js (get_prop d ''lineJoin'') (JStr ''round'')),
      (''miterLimit'', or_js (get_prop d ''miterLimit'') (JNum 10))]"

definition setDefaults :: "jsketch \<Rightarrow> jres" where
  "setDefaults s =
     (case data s of
        None \<Rightarrow> (Inl TypeError, s)
      | Some d \<Rightarrow>
          (let opts = default_options d
           in block [block (map (\<lambda>(opt, val). push (Property opt val)) opts),
                     chain (saveGraphics (Some opts)) restoreGraphics] s))"

subsection \<open>The constructor\<close>

text \<open>
  \<open>new jSketch(elem, options)\<close>; \<open>options = None\<close> when the argument is omitted.
  \<open>document.querySelector\<close> is the browser's: a parameter, giving the element found
  for a selector or \<open>ENull\<close>. The result is the new instance, or the exception.
\<close>

definition blank :: jsketch where
  "blank = \<lparr>canvas = ENull, ctx = None, stageWidth = JUndefined,
            stageHeight = JUndefined, data = None, callStack = [], loading = []\<rparr>"

fun elem_width :: "elem \<Rightarrow> jsval" where
  "elem_width (ECanvas c) = width c"
| "elem_width _ = JUndefined"

fun elem_height :: "elem \<Rightarrow> jsval" where
  "elem_height (ECanvas c) = height c"
| "elem_height _ = JUndefined"

definition jSketch :: "(string \<Rightarrow> elem) \<Rightarrow> elem \<Rightarrow> options option \<Rightarrow> js_error + jsketch" where
  "jSketch querySelector el opts =
     (if \<not> truthy_elem el then Inl (Error ''Sketchable requires a DOM element.'')
      else
        (let el' = (case el of EString sel \<Rightarrow> querySelector sel | _ \<Rightarrow> el)
         in case setContext el' blank of
              (Inl e, _) \<Rightarrow> Inl e
            | (Inr _, s1) \<Rightarrow>
                (case setDefaults (s1\<lparr>stageWidth := elem_width el',
                                     stageHeight := elem_height el',
                                     data := opts, callStack := []\<rparr>) of
                   (Inl e, _) \<Rightarrow> Inl e
                 | (Inr _, s2) \<Rightarrow> Inr s2)))"

subsection \<open>The drawing methods\<close>

text \<open>\<open>this.canvas.width = w; this.canvas.height = h\<close>: throws when \<open>this.canvas\<close> is undefined.\<close>

definition set_canvas_size :: "jsval \<Rightarrow> jsval \<Rightarrow> jsketch \<Rightarrow> jres" where
  "set_canvas_size w h s =
     (case canvas s of
        ENull \<Rightarrow> (Inl TypeError, s)
      | ECanvas c \<Rightarrow> (Inr RUndefined, s\<lparr>canvas := ECanvas (c\<lparr>width := w, height := h\<rparr>)\<rparr>)
      | _ \<Rightarrow> (Inr RUndefined, s))"

definition size_jSketch :: "jsval \<Rightarrow> jsval \<Rightarrow> jsketch \<Rightarrow> jres" where
  "size_jSketch w h =
     block [(\<lambda>s. (Inr RUndefined, s\<lparr>stageWidth := w, stageHeight := h\<rparr>)),
            set_canvas_size w h,
            restoreGraphics,
            return_this]"

definition beginFill :: "jsval \<Rightarrow> jsketch \<Rightarrow> jres" where
  "beginFill color =
     block [saveGraphics None,
            set_context_prop ''fillStyle'' color,
            push (Property ''fillStyle'' color),
            return_this]"

definition endFill :: "jsketch \<Rightarrow> jres" where
  "endFill = block [restoreGraphics, return_this]"

definition background :: "jsval \<Rightarrow> jsketch \<Rightarrow> jres" where
  "background color s =
     (let args = [Val (JNum 0), Val (JNum 0), Val (stageWidth s), Val (stageHeight s)]
      in block [beginFill color,
                native ''fillRect'' args,
                endFill,
                push (Property ''fillStyle'' color),
                push (Method ''fillRect'' (Some args)),
                return_this] s)"

definition stage :: "jsval \<Rightarrow> jsval \<Rightarrow> jsval \<Rightarrow> jsketch \<Rightarrow> jres" where
  "stage w h bgcolor = block [chain (size_jSketch w h) (background bgcolor), return_this]"

definition lineStyle :: "jsval \<Rightarrow> jsval \<Rightarrow> jsval \<Rightarrow> jsval \<Rightarrow> jsval \<Rightarrow> jsketch \<Rightarrow> jres" where
  "lineStyle color thickness capStyle joinStyle miter =
     chain (saveGraphics (Some [(''strokeStyle'', color), (''lineWidth'', thickness),
                                (''lineCap'', capStyle), (''lineJoin'', joinStyle),
                                (''miterLimit'', miter)]))
           restoreGraphics"

definition moveTo :: "jsval list \<Rightarrow> jsketch \<Rightarrow> jres" where
  "moveTo args =
     block [native ''moveTo'' (map Val args),
            push (Method ''moveTo'' (Some (map Val args))),
            return_this]"

definition lineTo :: "jsval list \<Rightarrow> jsketch \<Rightarrow> jres" where
  "lineTo args =
     block [native ''lineTo'' (map Val args),
            push (Method ''lineTo'' (Some (map Val args))),
            return_this]"

definition line :: "jsval \<Rightarrow> jsval \<Rightarrow> jsval \<Rightarrow> jsval \<Rightarrow> jsketch \<Rightarrow> jres" where
  "line x1 y1 x2 y2 = block [moveTo [x1, y1], lineTo [x2, y2], return_this]"

definition curveTo :: "jsval \<Rightarrow> jsval \<Rightarrow> jsval \<Rightarrow> jsval \<Rightarrow> jsketch \<Rightarrow> jres" where
  "curveTo x y cpx cpy =
     (let args = [Val cpx, Val cpy, Val x, Val y]
      in block [native ''quadraticCurveTo'' args,
                push (Method ''quadraticCurveTo'' (Some args)),
                return_this])"

definition curve :: "jsval \<Rightarrow> jsval \<Rightarrow> jsval \<Rightarrow> jsval \<Rightarrow> jsval \<Rightarrow> jsval \<Rightarrow> jsketch \<Rightarrow> jres" where
  "curve x1 y1 x2 y2 cpx cpy = block [moveTo [x1, y1], curveTo x2 y2 cpx cpy, return_this]"

definition stroke :: "jsketch \<Rightarrow> jres" where
  "stroke = block [native ''stroke'' [], push (Method ''stroke'' None), return_this]"

definition strokeRect :: "jsval list \<Rightarrow> jsketch \<Rightarrow> jres" where
  "strokeRect args =
     block [native ''beginPath'' [],
            native ''strokeRect'' (map Val args),
            native ''closePath'' [],
            push (Method ''strokeRect'' (Some (map Val args))),
            return_this]"

definition fillRect :: "jsval list \<Rightarrow> jsketch \<Rightarrow> jres" where
  "fillRect args =
     block [native ''beginPath'' [],
            native ''fillRect'' (map Val args),
            native ''closePath'' [],
            push (Method ''fillRect'' (Some (map Val args))),
            return_this]"

definition rect :: "jsval list \<Rightarrow> jsketch \<Rightarrow> jres" where
  "rect args = block [fillRect args, strokeRect args, return_this]"

text \<open>The arguments of \<open>arc\<close> for a full circle: \<open>[x, y, radius, 0, 2*Math.PI, false]\<close>.\<close>

definition circle_args :: "jsval \<Rightarrow> jsval \<Rightarrow> jsval \<Rightarrow> arg list" where
  "circle_args x y radius =
     [Val x, Val y, Val radius, Val (JNum 0), Val (JNum (2 * pi)), Val (JBool False)]"

definition strokeCircle :: "jsval \<Rightarrow> jsval \<Rightarrow> jsval \<Rightarrow> jsketch \<Rightarrow> jres" where
  "strokeCircle x y radius =
     block [native ''beginPath'' [],
            native ''arc'' (circle_args x y radius),
            native ''stroke'' [],
            native ''closePath'' [],
            push (Method ''strokeCircle'' (Some (circle_args x y radius))),
            return_this]"

definition fillCircle :: "jsval \<Rightarrow> jsval \<Rightarrow> jsval \<Rightarrow> jsketch \<Rightarrow> jres" where
  "fillCircle x y radius =
     block [native ''beginPath'' [],
            native ''arc'' (circle_args x y radius),
            native ''fill'' [],
            native ''closePath'' [],
            push (Method ''fillCircle'' (Some (circle_args x y radius))),
            return_this]"

definition circle :: "jsval list \<Rightarrow> jsketch \<Rightarrow> jres" where
  "circle args =
     block [fillCircle (argument args 0) (argument args 1) (argument args 2),
            strokeCircle (argument args 0) (argument args 1) (argument args 2),
            return_this]"

text \<open>
  The experimental \<open>radialCircle\<close>. \<open>glowSize\<close> is a number or undefined, \<open>colors\<close> an
  array, or \<open>None\<close> when it is omitted or falsy. What the browser hands back comes with
  the call: \<open>g\<close>, the reference of the gradient that \<open>createRadialGradient\<close> returns,
  and \<open>fill\<close>, the value read from \<open>this.context.fillStyle\<close>.
\<close>

text \<open>\<open>g.name(args)\<close> on that gradient.\<close>

definition gradient_call :: "nat \<Rightarrow> string \<Rightarrow> arg list \<Rightarrow> jsketch \<Rightarrow> jres" where
  "gradient_call g name args s =
     (Inr RUndefined, s\<lparr>ctx := map_option (\<lambda>tr. tr @ [GradientCall g name args]) (ctx s)\<rparr>)"

text \<open>The loop \<open>for (s = 0; s < colors.length; s++) g.addColorStop(s, colors[s])\<close>, from \<open>s = i\<close>.\<close>

fun addColorStops :: "nat \<Rightarrow> nat \<Rightarrow> jsval list \<Rightarrow> jsketch \<Rightarrow> jres" where
  "addColorStops g i [] s = (Inr RUndefined, s)"
| "addColorStops g i (color # rest) s =
     (case gradient_call g ''addColorStop'' [Val (JNum (real i)), Val color] s of
        (Inl e, s') \<Rightarrow> (Inl e, s')
      | (Inr _, s') \<Rightarrow> addColorStops g (Suc i) rest s')"

definition radialCircle ::
  "jsval \<Rightarrow> jsval \<Rightarrow> jsval \<Rightarrow> jsnumber option \<Rightarrow> jsval list option \<Rightarrow> nat \<Rightarrow> jsval \<Rightarrow>
   jsketch \<Rightarrow> jres" where
  "radialCircle x y radius glowSize colors g fill =
     block [native ''createRadialGradient''
              [Val x, Val y, Val radius, Val x, Val y,
               Val (case glowSize of
                      None \<Rightarrow> JNum 1
                    | Some n \<Rightarrow> if negative n then JNum 1 else number_val n)],
            addColorStops g 0 (case colors of None \<Rightarrow> [fill, JStr ''white''] | Some cs \<Rightarrow> cs),
            chain (chain (beginFill (JHost g)) (fillCircle x y radius)) endFill,
            return_this]"

definition beginPath :: "jsketch \<Rightarrow> jres" where
  "beginPath =
     block [saveGraphics None, native ''beginPath'' [], push (Method ''beginPath'' None),
            return_this]"

definition closePath :: "jsketch \<Rightarrow> jres" where
  "closePath =
     block [native ''closePath'' [], push (Method ''closePath'' None), restoreGraphics,
            return_this]"

definition eraser :: "jsketch \<Rightarrow> jres" where
  "eraser =
     block [set_context_prop ''globalCompositeOperation'' (JStr ''destination-out''),
            push (Property ''comp-op'' (JStr ''dst_out'')),
            return_this]"

definition pencil :: "jsketch \<Rightarrow> jres" where
  "pencil =
     block [set_context_prop ''globalCompositeOperation'' (JStr ''source-over''),
            push (Property ''comp-op'' (JStr ''src_over'')),
            return_this]"

definition clear :: "jsketch \<Rightarrow> jres" where
  "clear s =
     block [native ''clearRect''
              [Val (JNum 0), Val (JNum 0), Val (stageWidth s), Val (stageHeight s)],
            push (Method ''clear'' None),
            return_this] s"

definition save_jSketch :: "jsketch \<Rightarrow> jres" where
  "save_jSketch = block [native ''save'' [], push (Method ''save'' None), return_this]"

definition restore_jSketch :: "jsketch \<Rightarrow> jres" where
  "restore_jSketch = block [native ''restore'' [], push (Method ''restore'' None), return_this]"

text \<open>
  \<open>drawImage\<close> starts loading an image and logs \<open>addAsync\<close>; \<open>x\<close> and \<open>y\<close> default
  to 0. The handlers \<open>onload\<close> and \<open>onerror\<close> run later, for the \<open>i\<close>-th image
  that is still loading.
\<close>

definition drawImage :: "string \<Rightarrow> jsval \<Rightarrow> jsval \<Rightarrow> jsketch \<Rightarrow> jres" where
  "drawImage src x y s =
     (let x' = (if x = JUndefined then JNum 0 else x);
          y' = (if y = JUndefined then JNum 0 else y)
      in block [(\<lambda>s. (Inr RUndefined, s\<lparr>loading := loading s @ [(src, x', y')]\<rparr>)),
                push (Method ''addAsync'' None),
                return_this] s)"

definition drawImage_onload :: "nat \<Rightarrow> jsketch \<Rightarrow> jres" where
  "drawImage_onload i s =
     (if i < length (loading s) then
        (case loading s ! i of
           (src, x, y) \<Rightarrow>
             block [native ''drawImage'' [Img src, Val x, Val y],
                    push (Method ''drawImage'' (Some [Img src, Val x, Val y])),
                    push (Method ''removeAsync'' None)]
               (s\<lparr>loading := take i (loading s) @ drop (Suc i) (loading s)\<rparr>))
      else (Inr RUndefined, s))"

definition drawImage_onerror :: "nat \<Rightarrow> jsketch \<Rightarrow> jres" where
  "drawImage_onerror i s =
     (if i < length (loading s) then
        push (Method ''removeAsync'' None)
          (s\<lparr>loading := take i (loading s) @ drop (Suc i) (loading s)\<rparr>)
      else (Inr RUndefined, s))"

subsection \<open>Calling a public method\<close>

datatype jcall =
    C_setContext elem
  | C_setDefaults
  | C_size jsval jsval
  | C_background jsval
  | C_stage jsval jsval jsval
  | C_beginFill jsval
  | C_endFill
  | C_lineStyle jsval jsval jsval jsval jsval
  | C_moveTo "jsval list"
  | C_lineTo "jsval list"
  | C_line jsval jsval jsval jsval
  | C_curveTo jsval jsval jsval jsval
  | C_curve jsval jsval jsval jsval jsval jsval
  | C_stroke
  | C_strokeRect "jsval list"
  | C_fillRect "jsval list"
  | C_rect "jsval list"
  | C_strokeCircle jsval jsval jsval
  | C_fillCircle jsval jsval jsval
  | C_circle "jsval list"
  | C_radialCircle jsval jsval jsval "jsnumber option" "jsval list option" nat jsval
  | C_beginPath
  | C_closePath
  | C_eraser
  | C_pencil
  | C_clear
  | C_save
  | C_restore
  | C_saveGraphics "options option"
  | C_restoreGraphics
  | C_drawImage string jsval jsval

fun call :: "jcall \<Rightarrow> jsketch \<Rightarrow> jres" where
  "call (C_setContext el) = setContext el"
| "call C_setDefaults = setDefaults"
| "call (C_size w h) = size_jSketch w h"
| "call (C_background color) = background color"
| "call (C_stage w h bgcolor) = stage w h bgcolor"
| "call (C_beginFill color) = beginFill color"
| "call C_endFill = endFill"
| "call (C_lineStyle color thickness capStyle joinStyle miter) =
     lineStyle color thickness capStyle joinStyle miter"
| "call (C_moveTo args) = moveTo args"
| "call (C_lineTo args) = lineTo args"
| "call (C_line x1 y1 x2 y2) = line x1 y1 x2 y2"
| "call (C_curveTo x y cpx cpy) = curveTo x y cpx cpy"
| "call (C_curve x1 y1 x2 y2 cpx cpy) = curve x1 y1 x2 y2 cpx cpy"
| "call C_stroke = stroke"
| "call (C_strokeRect args) = strokeRect args"
| "call (C_fillRect args) = fillRect args"
| "call (C_rect args) = rect args"
| "call (C_strokeCircle x y radius) = strokeCircle x y radius"
| "call (C_fillCircle x y radius) = fillCircle x y radius"
| "call (C_circle args) = circle args"
| "call (C_radialCircle x y radius glowSize colors g fill) =
     radialCircle x y radius glowSize colors g fill"
| "call C_beginPath = beginPath"
| "call C_closePath = closePath"
| "call C_eraser = eraser"
| "call C_pencil = pencil"
| "call C_clear = clear"
| "call C_save = save_jSketch"
| "call C_restore = restore_jSketch"
| "call (C_saveGraphics opts) = saveGraphics opts"
| "call C_restoreGraphics = restoreGraphics"
| "call (C_drawImage src x y) = drawImage src x y"

subsection \<open>Sequences of calls\<close>

text \<open>
  What happens to an instance, one step at a time: a call of a public method, or the end
  of an image load that \<open>drawImage\<close> started. An exception ends the step, not the
  sequence.
\<close>

datatype jstep = Invoke jcall | ImageLoaded nat | ImageFailed nat

fun step :: "jstep \<Rightarrow> jsketch \<Rightarrow> jres" where
  "step (Invoke c) = call c"
| "step (ImageLoaded i) = drawImage_onload i"
| "step (ImageFailed i) = drawImage_onerror i"


text \<open>
  An instance as the constructor leaves it has a context, its data and a canvas. The
  replay log of \<open>s'\<close> extends that of \<open>s\<close> when it only adds entries at the end.
\<close>

definition constructed :: "jsketch \<Rightarrow> bool" where
  "constructed s = (ctx s \<noteq> None \<and> data s \<noteq> None \<and> canvas s \<noteq> ENull)"

definition extends :: "jsketch \<Rightarrow> jsketch \<Rightarrow> bool" where
  "extends s s' = (\<exists>es. callStack s' = callStack s @ es)"

text \<open>
  A statement is well behaved when it only extends the replay log and, on a constructed
  instance, completes and leaves a constructed instance; a method is, when moreover it
  returns nothing but \<open>this\<close>.
\<close>

definition ok_stmt :: "(jsketch \<Rightarrow> jres) \<Rightarrow> bool" where
  "ok_stmt m =
     (\<forall>s. extends s (snd (m s)) \<and>
          (constructed s \<longrightarrow> constructed (snd (m s)) \<and> (\<exists>v. fst (m s) = Inr v)))"

definition ok_method :: "(jsketch \<Rightarrow> jres) \<Rightarrow> bool" where
  "ok_method m = (ok_stmt m \<and> (\<forall>s v. fst (m s) = Inr v \<longrightarrow> v = RThis))"

section \<open>MementoCanvas: the undo and redo history (sketchable.memento.js)\<close>

text \<open>
  The class \<open>MementoCanvas\<close>. The plugin around it forwards to these methods: the
  widget's \<open>mouseup\<close> calls \<open>save(ev)\<close>, its \<open>clear\<close> calls \<open>reset()\<close>, its
  \<open>destroy\<close> calls \<open>destroy()\<close>.
\<close>

text \<open>
  A history entry, as \<open>save\<close> builds it: \<open>{ image, strokes, callStack }\<close>. The same
  shape is the \<open>state\<close> argument of \<open>restore\<close>.
\<close>

record entry =
  image :: string
  strokes :: "jtree list"
  entry_callStack :: "call_entry list"

text \<open>
  The event handed to \<open>save\<close>: a touch carries an \<open>identifier\<close>, a mouse event has
  none. The event handed to \<open>keyManager\<close>.
\<close>

record pointer_event =
  identifier_ev :: "int option"

record key_event =
  ctrlKey :: bool
  shiftKey :: bool
  which :: int

text \<open>
  \<open>restore\<close> creates an image and draws once it has loaded. Its \<open>onload\<close> handler holds
  a reference to the state object: either the entry object at an index of the present
  stack, whose \<open>strokes\<close> a later multi-touch \<open>save\<close> may replace, or an object held by
  the handler alone.
\<close>

datatype state_ref = Current nat | Given entry

text \<open>
  The state the plugin works on: its private \<open>stack\<close> and \<open>stpos\<close>, the
  \<open>data.strokes\<close> and \<open>data.sketch\<close> of the widget, and the images created by
  \<open>restore\<close> that are still loading, each with its \<open>src\<close> and state.
\<close>

record world =
  stack :: "entry list"
  stpos :: int
  data_strokes :: "jtree list"
  data_sketch :: jsketch
  snapshots :: "(string \<times> state_ref) list"

type_synonym mres = "world res"

text \<open>\<open>stack[stpos]\<close>, \<open>None\<close> when it is undefined.\<close>

definition current :: "world \<Rightarrow> entry option" where
  "current w =
     (if 0 \<le> stpos w \<and> stpos w < int (length (stack w))
      then Some (stack w ! nat (stpos w)) else None)"

text \<open>A method of \<open>data.sketch\<close> called from the plugin.\<close>

definition on_sketch :: "(jsketch \<Rightarrow> jres) \<Rightarrow> world \<Rightarrow> mres" where
  "on_sketch m w = (case m (data_sketch w) of (r, s') \<Rightarrow> (r, w\<lparr>data_sketch := s'\<rparr>))"

text \<open>
  \<open>instance.handler(callback)\<close> belongs to the widget: it is taken to call back once,
  at once, with the element \<open>data.sketch\<close> draws on and the widget's data.
  \<open>elem.toDataURL()\<close> is the browser's: a parameter, applied to that element and to
  what was drawn on it.
\<close>

definition draw :: "string \<Rightarrow> entry \<Rightarrow> world \<Rightarrow> mres" where
  "draw snapshot st =
     block [on_sketch clear,
            on_sketch (native ''drawImage'' [Img snapshot, Val (JNum 0), Val (JNum 0)]),
            (\<lambda>w. (Inr RUndefined,
                   w\<lparr>data_strokes := strokes st,
                     data_sketch := (data_sketch w)\<lparr>callStack := entry_callStack st\<rparr>\<rparr>))]"

text \<open>\<open>ev && ev.identifier > 0\<close>.\<close>

definition multitouch :: "pointer_event option \<Rightarrow> bool" where
  "multitouch ev =
     (case ev of
        None \<Rightarrow> False
      | Some e \<Rightarrow> (case identifier_ev e of None \<Rightarrow> False | Some n \<Rightarrow> n > 0))"

text \<open>The object that \<open>save\<close> pushes: the bitmap, and copies of the strokes and of the replay log.\<close>

definition snapshot_of :: "(elem \<Rightarrow> ctx_event list option \<Rightarrow> string) \<Rightarrow> world \<Rightarrow> entry" where
  "snapshot_of toDataURL w =
     \<lparr>image = toDataURL (canvas (data_sketch w)) (ctx (data_sketch w)),
      strokes = data_strokes w,
      entry_callStack = callStack (data_sketch w)\<rparr>"

definition save :: "(elem \<Rightarrow> ctx_event list option \<Rightarrow> string) \<Rightarrow> pointer_event option \<Rightarrow> world \<Rightarrow> mres" where
  "save toDataURL ev w =
     (if multitouch ev then
        (case current w of
           None \<Rightarrow> (Inl TypeError, w)
         | Some e \<Rightarrow>
             (Inr RThis,
              w\<lparr>stack := (stack w)[nat (stpos w) := e\<lparr>strokes := data_strokes w\<rparr>]\<rparr>))
      else
        (Inr RThis,
         w\<lparr>stack := stack w @ [snapshot_of toDataURL w], stpos := stpos w + 1\<rparr>))"

definition restore :: "entry option \<Rightarrow> world \<Rightarrow> mres" where
  "restore st w =
     (case st of
        Some e \<Rightarrow> (Inr RThis, w\<lparr>snapshots := snapshots w @ [(image e, Given e)]\<rparr>)
      | None \<Rightarrow>
          (case current w of
             None \<Rightarrow> (Inl TypeError, w)
           | Some e \<Rightarrow>
               (Inr RThis,
                w\<lparr>snapshots := snapshots w @ [(image e, Current (nat (stpos w)))]\<rparr>)))"

text \<open>The image of the \<open>i\<close>-th outstanding \<open>restore\<close> has loaded, or has failed to.\<close>

definition deref :: "world \<Rightarrow> state_ref \<Rightarrow> entry option" where
  "deref w r =
     (case r of
        Given e \<Rightarrow> Some e
      | Current i \<Rightarrow> (if i < length (stack w) then Some (stack w ! i) else None))"

definition snapshot_onload :: "nat \<Rightarrow> world \<Rightarrow> mres" where
  "snapshot_onload i w =
     (if i < length (snapshots w) then
        (case snapshots w ! i of
           (src, r) \<Rightarrow>
             (case deref w r of
                None \<Rightarrow> (Inr RUndefined, w)
              | Some st \<Rightarrow>
                  draw src st
                    (w\<lparr>snapshots := take i (snapshots w) @ drop (Suc i) (snapshots w)\<rparr>)))
      else (Inr RUndefined, w))"

definition snapshot_onerror :: "nat \<Rightarrow> world \<Rightarrow> mres" where
  "snapshot_onerror i w =
     (Inr RUndefined, w\<lparr>snapshots := take i (snapshots w) @ drop (Suc i) (snapshots w)\<rparr>)"

definition undo :: "world \<Rightarrow> mres" where
  "undo w =
     (if stpos w > 0
      then block [restore None, (\<lambda>w. (Inr RThis, w))] (w\<lparr>stpos := stpos w - 1\<rparr>)
      else (Inr RThis, w))"

definition redo :: "world \<Rightarrow> mres" where
  "redo w =
     (if stpos w < int (length (stack w)) - 1
      then block [restore None, (\<lambda>w. (Inr RThis, w))] (w\<lparr>stpos := stpos w + 1\<rparr>)
      else (Inr RThis, w))"

text \<open>
  \<open>reset\<close> assigns a new, empty array to \<open>stack\<close>. The entry objects of the old array
  live on in the handlers that refer to them, out of the reach of \<open>save\<close>.
\<close>

definition detach :: "world \<Rightarrow> string \<times> state_ref \<Rightarrow> string \<times> state_ref" where
  "detach w p =
     (case p of
        (src, Current i) \<Rightarrow> (if i < length (stack w) then (src, Given (stack w ! i)) else p)
      | (src, Given e) \<Rightarrow> p)"

definition reset :: "(elem \<Rightarrow> ctx_event list option \<Rightarrow> string) \<Rightarrow> world \<Rightarrow> mres" where
  "reset toDataURL w =
     save toDataURL None
       (w\<lparr>stack := [], stpos := - 1, snapshots := map (detach w) (snapshots w)\<rparr>)"

subsection \<open>state: a JSON copy of the current entry\<close>

text \<open>
  \<open>JSON.parse(JSON.stringify(v))\<close> for a value inside an array or an object: an
  \<open>undefined\<close> array element, \<open>NaN\<close> and the infinities become \<open>null\<close>, a property
  whose value is \<open>undefined\<close> is left out, a host object or an image element, which
  has no enumerable property of its own, leaves \<open>{}\<close>.
\<close>

fun json_copy :: "jtree \<Rightarrow> jtree" where
  "json_copy (Leaf JUndefined) = Leaf JNull"
| "json_copy (Leaf JNaN) = Leaf JNull"
| "json_copy (Leaf (JInfinity _)) = Leaf JNull"
| "json_copy (Leaf (JHost _)) = Obj []"
| "json_copy (Leaf v) = Leaf v"
| "json_copy (ImgElem _) = Obj []"
| "json_copy (Arr xs) = Arr (map json_copy xs)"
| "json_copy (Obj ps) =
     Obj (map (\<lambda>(k, v). (k, json_copy v)) (filter (\<lambda>(k, v). v \<noteq> Leaf JUndefined) ps))"

text \<open>The entry as a value.\<close>

fun arg_tree :: "arg \<Rightarrow> jtree" where
  "arg_tree (Val v) = Leaf v"
| "arg_tree (Img src) = ImgElem src"

fun call_entry_tree :: "call_entry \<Rightarrow> jtree" where
  "call_entry_tree (Method m None) = Obj [(''method'', Leaf (JStr m))]"
| "call_entry_tree (Method m (Some args)) =
     Obj [(''method'', Leaf (JStr m)), (''args'', Arr (map arg_tree args))]"
| "call_entry_tree (Property p v) = Obj [(''property'', Leaf (JStr p)), (''value'', Leaf v)]"

definition entry_tree :: "entry \<Rightarrow> jtree" where
  "entry_tree e =
     Obj [(''image'', Leaf (JStr (image e))),
          (''strokes'', Arr (strokes e)),
          (''callStack'', Arr (map call_entry_tree (entry_callStack e)))]"

text \<open>\<open>JSON.stringify(undefined)\<close> is \<open>undefined\<close>, which \<open>JSON.parse\<close> rejects.\<close>

definition state :: "world \<Rightarrow> mres" where
  "state w =
     (case current w of
        None \<Rightarrow> (Inl SyntaxError, w)
      | Some e \<Rightarrow> (Inr (RValue (json_copy (entry_tree e))), w))"

subsection \<open>init, destroy and the keyboard shortcuts\<close>

text \<open>
  \<open>Event.add\<close> and \<open>Event.remove\<close> attach and detach \<open>keyManager\<close> on the document;
  the listeners of the document are outside the state modelled here.
\<close>

definition init :: "(elem \<Rightarrow> ctx_event list option \<Rightarrow> string) \<Rightarrow> world \<Rightarrow> mres" where
  "init toDataURL w = save toDataURL None w"

definition destroy :: "(elem \<Rightarrow> ctx_event list option \<Rightarrow> string) \<Rightarrow> world \<Rightarrow> mres" where
  "destroy toDataURL w = reset toDataURL w"

definition keyManager :: "key_event \<Rightarrow> world \<Rightarrow> mres" where
  "keyManager ev w =
     (if ctrlKey ev then
        (if which ev = 26 then
           (if shiftKey ev then block [redo, (\<lambda>w. (Inr RUndefined, w))] w
            else block [undo, (\<lambda>w. (Inr RUndefined, w))] w)
         else if which ev = 25 then block [redo, (\<lambda>w. (Inr RUndefined, w))] w
         else (Inr RUndefined, w))
      else (Inr RUndefined, w))"

text \<open>A new \<open>MementoCanvas\<close> on a widget: nothing saved yet.\<close>

definition MementoCanvas :: "jtree list \<Rightarrow> jsketch \<Rightarrow> world" where
  "MementoCanvas strokes0 sketch0 =
     \<lparr>stack = [], stpos = - 1, data_strokes = strokes0, data_sketch = sketch0,
      snapshots = []\<rparr>"

subsection \<open>Sequences of operations\<close>

text \<open>
  What can happen to the plugin, one step at a time: a call of one of its methods, a key
  press, the end of an image load, or the widget drawing, which changes its strokes and
  its sketch but cannot reach the private \<open>stack\<close> and \<open>stpos\<close>. An exception ends
  the step, not the sequence.
\<close>

datatype mop =
    Op_save "pointer_event option"
  | Op_undo
  | Op_redo
  | Op_reset
  | Op_restore "entry option"
  | Op_state
  | Op_init
  | Op_destroy
  | Op_keypress key_event
  | Op_onload nat
  | Op_onerror nat
  | Op_widget "jtree list" jsketch

fun exec :: "(elem \<Rightarrow> ctx_event list option \<Rightarrow> string) \<Rightarrow> mop \<Rightarrow> world \<Rightarrow> mres" where
  "exec toDataURL (Op_save ev) w = save toDataURL ev w"
| "exec toDataURL Op_undo w = undo w"
| "exec toDataURL Op_redo w = redo w"
| "exec toDataURL Op_reset w = reset toDataURL w"
| "exec toDataURL (Op_restore st) w = restore st w"
| "exec toDataURL Op_state w = state w"
| "exec toDataURL Op_init w = init toDataURL w"
| "exec toDataURL Op_destroy w = destroy toDataURL w"
| "exec toDataURL (Op_keypress ev) w = keyManager ev w"
| "exec toDataURL (Op_onload i) w = snapshot_onload i w"
| "exec toDataURL (Op_onerror i) w = snapshot_onerror i w"
| "exec toDataURL (Op_widget strokes' sketch') w =
     (Inr RUndefined, w\<lparr>data_strokes := strokes', data_sketch := sketch'\<rparr>)"

fun run :: "(elem \<Rightarrow> ctx_event list option \<Rightarrow> string) \<Rightarrow> mop list \<Rightarrow> world \<Rightarrow> world" where
  "run toDataURL [] w = w"
| "run toDataURL (op # ops) w = run toDataURL ops (snd (exec toDataURL op w))"

text \<open>
  The bounds of the position: between \<open>-1\<close> and the last index, and not \<open>-1\<close> once
  something is on the stack.
\<close>

definition in_bounds :: "world \<Rightarrow> bool" where
  "in_bounds w =
     (- 1 \<le> stpos w \<and> stpos w \<le> int (length (stack w)) - 1 \<and>
      (stack w \<noteq> [] \<longrightarrow> 0 \<le> stpos w))"

text \<open>
  A reference held by a handler of \<open>restore\<close> is valid when it is to an entry of the
  present stack.
\<close>

fun ref_ok :: "nat \<Rightarrow> string \<times> state_ref \<Rightarrow> bool" where
  "ref_ok n (src, Current i) = (i < n)"
| "ref_ok n (src, Given e) = True"

definition refs_valid :: "world \<Rightarrow> bool" where
  "refs_valid w = list_all (ref_ok (length (stack w))) (snapshots w)"

text \<open>
  The values that JSON represents: \<open>null\<close>, booleans, finite numbers, strings, and the
  arrays and plain objects made of them.
\<close>

fun json_value :: "jtree \<Rightarrow> bool" where
  "json_value (Leaf JNull) = True"
| "json_value (Leaf (JBool _)) = True"
| "json_value (Leaf (JNum _)) = True"
| "json_value (Leaf (JStr _)) = True"
| "json_value (Leaf _) = False"
| "json_value (Arr xs) = list_all json_value xs"
| "json_value (Obj ps) = list_all (\<lambda>(k, v). json_value v) ps"
| "json_value (ImgElem _) = False"

subsection \<open>Sample inputs\<close>

text \<open>
  A canvas of the default size, the sketch that the constructor makes on it from empty
  options, an encoder standing for \<open>toDataURL\<close>, a new plugin on that sketch, two
  strokes of two points each, and the sketch once \<open>drawImage('a.png')\<close> has loaded its image.
\<close>

definition sample_canvas :: canvas where
  "sample_canvas = \<lparr>width = JNum 300, height = JNum 150, ctx2d = []\<rparr>"

definition sample_sketch :: jsketch where
  "sample_sketch =
     \<lparr>canvas = ECanvas sample_canvas,
      ctx = Some [SetProp ''fillStyle'' (JStr ''#F00''), SetProp ''strokeStyle'' (JStr ''#F0F''),
                  SetProp ''lineWidth'' (JNum 2), SetProp ''lineCap'' (JStr ''round''),
                  SetProp ''lineJoin'' (JStr ''round''), SetProp ''miterLimit'' (JNum 10)],
      stageWidth = JNum 300, stageHeight = JNum 150,
      data = Some [(''fillStyle'', JStr ''#F00''), (''strokeStyle'', JStr ''#F0F''),
                   (''lineWidth'', JNum 2), (''lineCap'', JStr ''round''),
                   (''lineJoin'', JStr ''round''), (''miterLimit'', JNum 10)],
      callStack = [Property ''fillStyle'' (JStr ''#F00''), Property ''strokeStyle'' (JStr ''#F0F''),
                   Property ''lineWidth'' (JNum 2), Property ''lineCap'' (JStr ''round''),
                   Property ''lineJoin'' (JStr ''round''), Property ''miterLimit'' (JNum 10),
                   Property ''fillStyle'' (JStr ''#F00''), Property ''strokeStyle'' (JStr ''#F0F''),
                   Property ''lineWidth'' (JNum 2), Property ''lineCap'' (JStr ''round''),
                   Property ''lineJoin'' (JStr ''round''), Property ''miterLimit'' (JNum 10)],
      loading = []\<rparr>"

definition sample_world :: world where
  "sample_world = MementoCanvas [] sample_sketch"

definition sample_stroke :: jtree where
  "sample_stroke = Arr [Arr [Leaf (JNum 10), Leaf (JNum 20)], Arr [Leaf (JNum 11), Leaf (JNum 22)]]"

definition other_stroke :: jtree where
  "other_stroke = Arr [Arr [Leaf (JNum 30), Leaf (JNum 40)], Arr [Leaf (JNum 33), Leaf (JNum 44)]]"

definition sketch_with_image :: jsketch where
  "sketch_with_image =
     snd (drawImage_onload 0 (snd (drawImage ''a.png'' JUndefined JUndefined sample_sketch)))"

definition sample_toDataURL :: "elem \<Rightarrow> ctx_event list option \<Rightarrow> string" where
  "sample_toDataURL el tr = (case tr of None \<Rightarrow> [] | Some t \<Rightarrow> replicate (length t) CHR ''#'')"

section \<open>Properties of the history\<close>

subsection \<open>What each operation does to the stack and the position\<close>

lemma restore_stack [simp]: "stack (snd (restore st w)) = stack w"
  by (simp add: restore_def split: option.splits)

lemma restore_stpos [simp]: "stpos (snd (restore st w)) = stpos w"
  by (simp add: restore_def split: option.splits)

lemma on_sketch_stack [simp]: "stack (snd (on_sketch m w)) = stack w"
  by (simp add: on_sketch_def split: prod.splits)

lemma on_sketch_stpos [simp]: "stpos (snd (on_sketch m w)) = stpos w"
  by (simp add: on_sketch_def split: prod.splits)

lemma undo_eq:
  "undo w =
     (if stpos w > 0 then
        (case current (w\<lparr>stpos := stpos w - 1\<rparr>) of
           None \<Rightarrow> (Inl TypeError, w\<lparr>stpos := stpos w - 1\<rparr>)
         | Some e \<Rightarrow>
             (Inr RThis,
              w\<lparr>stpos := stpos w - 1,
                snapshots := snapshots w @ [(image e, Current (nat (stpos w - 1)))]\<rparr>))
      else (Inr RThis, w))"
  by (simp add: undo_def restore_def split: option.splits)

lemma redo_eq:
  "redo w =
     (if stpos w < int (length (stack w)) - 1 then
        (case current (w\<lparr>stpos := stpos w + 1\<rparr>) of
           None \<Rightarrow> (Inl TypeError, w\<lparr>stpos := stpos w + 1\<rparr>)
         | Some e \<Rightarrow>
             (Inr RThis,
              w\<lparr>stpos := stpos w + 1,
                snapshots := snapshots w @ [(image e, Current (nat (stpos w + 1)))]\<rparr>))
      else (Inr RThis, w))"
  by (simp add: redo_def restore_def split: option.splits)

lemma undo_stack [simp]: "stack (snd (undo w)) = stack w"
  by (simp add: undo_eq split: option.splits)

lemma redo_stack [simp]: "stack (snd (redo w)) = stack w"
  by (simp add: redo_eq split: option.splits)

lemma undo_stpos: "stpos (snd (undo w)) = (if stpos w > 0 then stpos w - 1 else stpos w)"
  by (simp add: undo_eq split: option.splits)

lemma redo_stpos:
  "stpos (snd (redo w)) = (if stpos w < int (length (stack w)) - 1 then stpos w + 1 else stpos w)"
  by (simp add: redo_eq split: option.splits)

lemma draw_stack [simp]: "stack (snd (draw src st w)) = stack w"
  by (simp add: draw_def on_sketch_def split: prod.splits sum.splits)

lemma draw_stpos [simp]: "stpos (snd (draw src st w)) = stpos w"
  by (simp add: draw_def on_sketch_def split: prod.splits sum.splits)

lemma snapshot_onload_stack [simp]: "stack (snd (snapshot_onload i w)) = stack w"
  by (simp add: snapshot_onload_def split: prod.splits option.splits)

lemma snapshot_onload_stpos [simp]: "stpos (snd (snapshot_onload i w)) = stpos w"
  by (simp add: snapshot_onload_def split: prod.splits option.splits)

lemma block_tail_snd: "snd (block [m, (\<lambda>w. (Inr r, w))] w) = snd (m w)"
  by (simp split: prod.splits sum.splits)

lemma keyManager_snd:
  "snd (keyManager ev w) =
     (if ctrlKey ev \<and> which ev = 26 \<and> shiftKey ev then snd (redo w)
      else if ctrlKey ev \<and> which ev = 26 then snd (undo w)
      else if ctrlKey ev \<and> which ev = 25 then snd (redo w)
      else w)"
  by (simp add: keyManager_def split: prod.splits sum.splits)

lemma keyManager_fst:
  "fst (keyManager ev w) =
     (if ctrlKey ev \<and> which ev = 26 \<and> shiftKey ev then map_sum id (\<lambda>r. RUndefined) (fst (redo w))
      else if ctrlKey ev \<and> which ev = 26 then map_sum id (\<lambda>r. RUndefined) (fst (undo w))
      else if ctrlKey ev \<and> which ev = 25 then map_sum id (\<lambda>r. RUndefined) (fst (redo w))
      else Inr RUndefined)"
  by (simp add: keyManager_def split: prod.splits sum.splits)

lemma keyManager_stack [simp]: "stack (snd (keyManager ev w)) = stack w"
  by (simp add: keyManager_snd)

lemma save_stack:
  "stack (snd (save enc ev w)) =
     (if multitouch ev then
        (case current w of None \<Rightarrow> stack w
         | Some c \<Rightarrow> (stack w)[nat (stpos w) := c\<lparr>strokes := data_strokes w\<rparr>])
      else stack w @ [snapshot_of enc w])"
  by (simp add: save_def split: option.splits)

lemma save_stpos:
  "stpos (snd (save enc ev w)) = (if multitouch ev then stpos w else stpos w + 1)"
  by (simp add: save_def split: option.splits)

lemma reset_stack: "stack (snd (reset enc w)) = [snapshot_of enc w]"
  by (simp add: reset_def save_def multitouch_def snapshot_of_def)

lemma reset_stpos: "stpos (snd (reset enc w)) = 0"
  by (simp add: reset_def save_def multitouch_def)


lemma exec_stack:
  "stack (snd (exec enc op w)) = stack w \<or>
   (\<exists>c. current w = Some c \<and>
        stack (snd (exec enc op w)) = (stack w)[nat (stpos w) := c\<lparr>strokes := data_strokes w\<rparr>]) \<or>
   stack (snd (exec enc op w)) = stack w @ [snapshot_of enc w] \<or>
   stack (snd (exec enc op w)) = [snapshot_of enc w]"
  by (cases op)
    (simp_all add: save_stack reset_stack init_def destroy_def state_def snapshot_onerror_def
      split: option.splits)

lemma exec_in_bounds: "in_bounds w \<Longrightarrow> in_bounds (snd (exec enc op w))"
  by (cases op)
    (auto simp: in_bounds_def save_stack save_stpos reset_stack reset_stpos init_def destroy_def
      state_def snapshot_onerror_def undo_stpos redo_stpos keyManager_snd
      split: option.splits)

lemma run_in_bounds: "in_bounds w \<Longrightarrow> in_bounds (run enc ops w)"
  by (induction ops arbitrary: w) (simp_all add: exec_in_bounds)

lemma MementoCanvas_in_bounds: "in_bounds (MementoCanvas st0 sk0)"
  by (simp add: in_bounds_def MementoCanvas_def)


lemma sample_constructed: "jSketch q (ECanvas sample_canvas) (Some []) = Inr sample_sketch"
  by (simp add: jSketch_def setContext_def blank_def setDefaults_def default_options_def or_js_def
      push_def chain_def saveGraphics_def restoreGraphics_def return_this_def strict_neq_def
      set_context_prop_def sample_sketch_def sample_canvas_def)

lemmas eval_defs = init_def save_def multitouch_def undo_eq redo_eq current_def MementoCanvas_def
  sample_world_def reset_def destroy_def restore_def state_def keyManager_def

subsection \<open>The handlers of restore refer to entries of the stack\<close>

lemma ref_ok_mono: "ref_ok n p \<Longrightarrow> n \<le> m \<Longrightarrow> ref_ok m p"
  by (cases "(n, p)" rule: ref_ok.cases) simp_all

lemma ref_ok_detach: "ref_ok n p \<Longrightarrow> n = length (stack w) \<Longrightarrow> ref_ok m (detach w p)"
  by (cases "(n, p)" rule: ref_ok.cases) (simp_all add: detach_def)

lemma refs_valid_restore: "refs_valid w \<Longrightarrow> refs_valid (snd (restore st w))"
  by (auto simp: restore_def current_def refs_valid_def split: option.splits)

lemma refs_valid_undo: "refs_valid w \<Longrightarrow> refs_valid (snd (undo w))"
  by (auto simp: undo_eq current_def refs_valid_def split: option.splits)

lemma refs_valid_redo: "refs_valid w \<Longrightarrow> refs_valid (snd (redo w))"
  by (auto simp: redo_eq current_def refs_valid_def split: option.splits)

lemma refs_valid_save: "refs_valid w \<Longrightarrow> refs_valid (snd (save enc ev w))"
  by (auto simp: save_def refs_valid_def list_all_iff split: option.splits
      intro: ref_ok_mono)

lemma refs_valid_reset: "refs_valid w \<Longrightarrow> refs_valid (snd (reset enc w))"
  by (auto simp: reset_def save_def multitouch_def refs_valid_def list_all_iff
      intro: ref_ok_detach)

lemma refs_valid_remove:
  "refs_valid w \<Longrightarrow>
   refs_valid (w\<lparr>snapshots := take i (snapshots w) @ drop (Suc i) (snapshots w)\<rparr>)"
  by (auto simp: refs_valid_def list_all_iff dest: in_set_takeD in_set_dropD)

lemma draw_snapshots [simp]: "snapshots (snd (draw src st w)) = snapshots w"
  by (simp add: draw_def on_sketch_def split: prod.splits sum.splits)

lemma refs_valid_draw: "refs_valid (snd (draw src st w)) = refs_valid w"
  by (simp add: refs_valid_def)

lemma refs_valid_onload: "refs_valid w \<Longrightarrow> refs_valid (snd (snapshot_onload i w))"
  by (simp add: snapshot_onload_def refs_valid_draw refs_valid_remove
      split: prod.splits option.splits)

lemma refs_valid_widget:
  "refs_valid (w\<lparr>data_strokes := st, data_sketch := sk\<rparr>) = refs_valid w"
  by (simp add: refs_valid_def)

lemma exec_refs_valid: "refs_valid w \<Longrightarrow> refs_valid (snd (exec enc op w))"
  by (cases op)
    (simp_all add: refs_valid_save refs_valid_undo refs_valid_redo refs_valid_reset
      refs_valid_restore init_def destroy_def state_def snapshot_onerror_def refs_valid_remove
      refs_valid_onload keyManager_snd refs_valid_widget split: option.splits)

lemma run_refs_valid: "refs_valid w \<Longrightarrow> refs_valid (run enc ops w)"
  by (induction ops arbitrary: w) (simp_all add: exec_refs_valid)

lemma reachable_refs_valid: "refs_valid (run enc ops (MementoCanvas st0 sk0))"
  by (rule run_refs_valid) (simp add: refs_valid_def MementoCanvas_def)

subsection \<open>The position stays in bounds; what is pushed\<close>

lemma save_None_stack:
  "stack (snd (save enc None w)) =
     stack w @ [\<lparr>image = enc (canvas (data_sketch w)) (ctx (data_sketch w)),
                 strokes = data_strokes w,
                 entry_callStack = callStack (data_sketch w)\<rparr>]"
  by (simp add: save_def multitouch_def snapshot_of_def)

lemma save_mouse_stack:
  "identifier_ev e = None \<or> (\<exists>n. identifier_ev e = Some n \<and> n \<le> 0) \<Longrightarrow>
   stack (snd (save enc (Some e) w)) =
     stack w @ [\<lparr>image = enc (canvas (data_sketch w)) (ctx (data_sketch w)),
                 strokes = data_strokes w,
                 entry_callStack = callStack (data_sketch w)\<rparr>]"
  by (auto simp: save_def multitouch_def snapshot_of_def)

text \<open>
  Claim C1. From a new \<open>MementoCanvas\<close>, after any sequence of \<open>save\<close>, \<open>undo\<close>,
  \<open>redo\<close>, \<open>reset\<close> and \<open>restore\<close> (and of the other steps: \<open>state\<close>, \<open>init\<close>,
  \<open>destroy\<close>, key presses, image loads, drawing by the widget, whether or not a step
  throws), \<open>-1 \<le> stpos \<le> stack.length - 1\<close>, and \<open>stpos \<ge> 0\<close> when the stack is
  not empty. A step leaves the stack as it is, or replaces the strokes of the current
  entry (a multi-touch \<open>save\<close>), or appends one entry, or (\<open>reset\<close>) leaves one entry
  alone. The entry that comes in holds the three components of that very step: as
  \<open>image\<close> the data URL of the canvas, as \<open>strokes\<close> the strokes of the widget, as
  \<open>callStack\<close> the replay log of its sketch. A \<open>save\<close> without an event, or with an
  event whose identifier is absent or not above 0, appends just that entry, and \<open>reset\<close>
  leaves just that entry.
\<close>

theorem history_in_bounds:
  "- 1 \<le> stpos (run toDataURL ops (MementoCanvas strokes0 sketch0)) \<and>
   stpos (run toDataURL ops (MementoCanvas strokes0 sketch0))
     \<le> int (length (stack (run toDataURL ops (MementoCanvas strokes0 sketch0)))) - 1 \<and>
   (stack (run toDataURL ops (MementoCanvas strokes0 sketch0)) \<noteq> [] \<longrightarrow>
      0 \<le> stpos (run toDataURL ops (MementoCanvas strokes0 sketch0))) \<and>
   (stack (snd (exec toDataURL op w)) = stack w \<or>
    (\<exists>c. current w = Some c \<and>
         stack (snd (exec toDataURL op w)) =
           (stack w)[nat (stpos w) := c\<lparr>strokes := data_strokes w\<rparr>]) \<or>
    stack (snd (exec toDataURL op w)) =
      stack w @ [\<lparr>image = toDataURL (canvas (data_sketch w)) (ctx (data_sketch w)),
                  strokes = data_strokes w,
                  entry_callStack = callStack (data_sketch w)\<rparr>] \<or>
    stack (snd (exec toDataURL op w)) =
      [\<lparr>image = toDataURL (canvas (data_sketch w)) (ctx (data_sketch w)),
        strokes = data_strokes w,
        entry_callStack = callStack (data_sketch w)\<rparr>]) \<and>
   stack (snd (save toDataURL None w)) =
     stack w @ [\<lparr>image = toDataURL (canvas (data_sketch w)) (ctx (data_sketch w)),
                 strokes = data_strokes w,
                 entry_callStack = callStack (data_sketch w)\<rparr>] \<and>
   (identifier_ev e = None \<or> (\<exists>n. identifier_ev e = Some n \<and> n \<le> 0) \<longrightarrow>
      stack (snd (save toDataURL (Some e) w)) =
        stack w @ [\<lparr>image = toDataURL (canvas (data_sketch w)) (ctx (data_sketch w)),
                    strokes = data_strokes w,
                    entry_callStack = callStack (data_sketch w)\<rparr>]) \<and>
   stack (snd (reset toDataURL w)) =
     [\<lparr>image = toDataURL (canvas (data_sketch w)) (ctx (data_sketch w)),
       strokes = data_strokes w,
       entry_callStack = callStack (data_sketch w)\<rparr>]"
proof -
  have b: "in_bounds (run toDataURL ops (MementoCanvas strokes0 sketch0))"
    by (rule run_in_bounds [OF MementoCanvas_in_bounds])
  have s: "stack (snd (exec toDataURL op w)) = stack w \<or>
    (\<exists>c. current w = Some c \<and>
         stack (snd (exec toDataURL op w)) =
           (stack w)[nat (stpos w) := c\<lparr>strokes := data_strokes w\<rparr>]) \<or>
    stack (snd (exec toDataURL op w)) =
      stack w @ [\<lparr>image = toDataURL (canvas (data_sketch w)) (ctx (data_sketch w)),
                  strokes = data_strokes w,
                  entry_callStack = callStack (data_sketch w)\<rparr>] \<or>
    stack (snd (exec toDataURL op w)) =
      [\<lparr>image = toDataURL (canvas (data_sketch w)) (ctx (data_sketch w)),
        strokes = data_strokes w,
        entry_callStack = callStack (data_sketch w)\<rparr>]"
    using exec_stack [of toDataURL op w] unfolding snapshot_of_def .
  have r: "stack (snd (reset toDataURL w)) =
     [\<lparr>image = toDataURL (canvas (data_sketch w)) (ctx (data_sketch w)),
       strokes = data_strokes w,
       entry_callStack = callStack (data_sketch w)\<rparr>]"
    using reset_stack [of toDataURL w] unfolding snapshot_of_def .
  show ?thesis
    using b s r save_None_stack [of toDataURL w] save_mouse_stack [of e toDataURL w]
    unfolding in_bounds_def by blast
qed

theorem history_in_bounds_witness:
  "stack (run sample_toDataURL [Op_init, Op_widget [sample_stroke] sample_sketch, Op_save None, Op_undo]
            sample_world) =
     [\<lparr>image = ''######'', strokes = [], entry_callStack = callStack sample_sketch\<rparr>,
      \<lparr>image = ''######'', strokes = [sample_stroke], entry_callStack = callStack sample_sketch\<rparr>] \<and>
   stpos (run sample_toDataURL
            [Op_init, Op_widget [sample_stroke] sample_sketch, Op_save None, Op_undo] sample_world) = 0 \<and>
   identifier_ev \<lparr>identifier_ev = None\<rparr> = None \<and>
   stack (snd (save sample_toDataURL (Some \<lparr>identifier_ev = None\<rparr>) sample_world)) =
     [\<lparr>image = ''######'', strokes = [], entry_callStack = callStack sample_sketch\<rparr>]"
  using history_in_bounds [of sample_toDataURL
      "[Op_init, Op_widget [sample_stroke] sample_sketch, Op_save None, Op_undo]" "[]" sample_sketch
      "Op_save None" sample_world "\<lparr>identifier_ev = None\<rparr>"]
  by (simp add: eval_defs snapshot_of_def sample_toDataURL_def sample_sketch_def)

subsection \<open>A multi-touch save\<close>

text \<open>
  Claim C2. \<open>save(ev)\<close> with \<open>ev.identifier > 0\<close> pushes nothing and leaves \<open>stpos\<close>
  as it is. Where there is a current entry \<open>stack[stpos]\<close>, its \<open>strokes\<close> become the
  current strokes, its \<open>image\<close> and \<open>callStack\<close> stay, every other entry stays, and so
  does the rest of the state; where there is none, the call throws and changes nothing.
\<close>

theorem save_multitouch:
  assumes "identifier_ev ev = Some n" and "0 < n"
  shows "length (stack (snd (save toDataURL (Some ev) w))) = length (stack w) \<and>
         stpos (snd (save toDataURL (Some ev) w)) = stpos w \<and>
         (current w = None \<longrightarrow> save toDataURL (Some ev) w = (Inl TypeError, w)) \<and>
         (\<forall>c. current w = Some c \<longrightarrow>
            save toDataURL (Some ev) w =
              (Inr RThis, w\<lparr>stack := (stack w)[nat (stpos w) := c\<lparr>strokes := data_strokes w\<rparr>]\<rparr>) \<and>
            strokes (stack (snd (save toDataURL (Some ev) w)) ! nat (stpos w)) = data_strokes w \<and>
            image (stack (snd (save toDataURL (Some ev) w)) ! nat (stpos w)) = image c \<and>
            entry_callStack (stack (snd (save toDataURL (Some ev) w)) ! nat (stpos w)) =
              entry_callStack c \<and>
            (\<forall>i < length (stack w). i \<noteq> nat (stpos w) \<longrightarrow>
               stack (snd (save toDataURL (Some ev) w)) ! i = stack w ! i))"
proof -
  have mt: "multitouch (Some ev)"
    using assms by (simp add: multitouch_def)
  show ?thesis
    using mt by (auto simp: save_def current_def split: if_splits)
qed

theorem save_multitouch_witness:
  "identifier_ev \<lparr>identifier_ev = Some 1\<rparr> = Some 1 \<and> (0::int) < 1 \<and>
   current (run sample_toDataURL [Op_init, Op_widget [sample_stroke] sample_sketch] sample_world) =
     Some (snapshot_of sample_toDataURL sample_world) \<and>
   stack (snd (save sample_toDataURL (Some \<lparr>identifier_ev = Some 1\<rparr>)
     (run sample_toDataURL [Op_init, Op_widget [sample_stroke] sample_sketch] sample_world))) =
     [(snapshot_of sample_toDataURL sample_world)\<lparr>strokes := [sample_stroke]\<rparr>]"
  using save_multitouch [of "\<lparr>identifier_ev = Some 1\<rparr>" 1 sample_toDataURL
      "run sample_toDataURL [Op_init, Op_widget [sample_stroke] sample_sketch] sample_world"]
  by (simp add: eval_defs snapshot_of_def)

subsection \<open>A save after an undo\<close>

lemma save_appends:
  "\<not> multitouch ev \<Longrightarrow>
   save enc ev w = (Inr RThis, w\<lparr>stack := stack w @ [snapshot_of enc w], stpos := stpos w + 1\<rparr>)"
  by (simp add: save_def)

lemma save_points_at_new_entry:
  "\<not> multitouch ev \<Longrightarrow> in_bounds w \<Longrightarrow>
   (nat (stpos (snd (save enc ev w))) = length (stack w)) = (stpos w = int (length (stack w)) - 1)"
  by (auto simp: save_def in_bounds_def)


text \<open>
  Claim C3. A \<open>save\<close> that is not a multi-touch one appends one entry, the snapshot, and
  adds one to \<open>stpos\<close>. The claim adds that \<open>stpos\<close> then points at the new entry.
  After an \<open>undo\<close> it does not: with two entries saved, one \<open>undo\<close> and a new stroke,
  \<open>save\<close> leaves three entries and \<open>stpos = 1\<close>, so that \<open>stack[stpos]\<close> is the entry
  that was undone, with the first stroke, and not the new one, with the other stroke.
\<close>

theorem save_after_undo_stale_position:
  "length (stack (run sample_toDataURL
      [Op_init, Op_widget [sample_stroke] sample_sketch, Op_save None, Op_undo, Op_onload 0,
       Op_widget [other_stroke] sample_sketch, Op_save None] sample_world)) = 3 \<and>
   stpos (run sample_toDataURL
      [Op_init, Op_widget [sample_stroke] sample_sketch, Op_save None, Op_undo, Op_onload 0,
       Op_widget [other_stroke] sample_sketch, Op_save None] sample_world) = 1 \<and>
   strokes (last (stack (run sample_toDataURL
      [Op_init, Op_widget [sample_stroke] sample_sketch, Op_save None, Op_undo, Op_onload 0,
       Op_widget [other_stroke] sample_sketch, Op_save None] sample_world))) = [other_stroke] \<and>
   map_option strokes (current (run sample_toDataURL
      [Op_init, Op_widget [sample_stroke] sample_sketch, Op_save None, Op_undo, Op_onload 0,
       Op_widget [other_stroke] sample_sketch, Op_save None] sample_world)) =
     Some [sample_stroke]"
  by (simp add: eval_defs snapshot_of_def snapshot_onload_def deref_def draw_def on_sketch_def
      clear_def native_def push_def return_this_def sample_sketch_def)

subsection \<open>Undo and redo\<close>

text \<open>
  Claim C4. In every state that a sequence of operations reaches from a new
  \<open>MementoCanvas\<close>: when \<open>stpos > 0\<close>, \<open>undo\<close> then \<open>redo\<close> brings \<open>stpos\<close> back and
  the last restoration asked for is that of the entry that was current; when
  \<open>stpos < stack.length - 1\<close>, \<open>redo\<close> then \<open>undo\<close> brings \<open>stpos\<close> back. Neither
  operation changes the stack.
\<close>

theorem undo_redo_inverse:
  assumes "w = run toDataURL ops (MementoCanvas strokes0 sketch0)"
  shows "(0 < stpos w \<longrightarrow>
            stpos (snd (redo (snd (undo w)))) = stpos w \<and>
            (\<exists>e. current w = Some e \<and>
                 last (snapshots (snd (redo (snd (undo w))))) = (image e, Current (nat (stpos w))))) \<and>
         (stpos w < int (length (stack w)) - 1 \<longrightarrow> stpos (snd (undo (snd (redo w)))) = stpos w) \<and>
         stack (snd (undo w)) = stack w \<and> stack (snd (redo w)) = stack w"
proof -
  have b: "in_bounds w"
    unfolding assms by (rule run_in_bounds [OF MementoCanvas_in_bounds])
  have 1: "stpos (snd (redo (snd (undo w)))) = stpos w" if "0 < stpos w"
    using that b by (simp add: redo_stpos undo_stpos in_bounds_def)
  have 2: "\<exists>e. current w = Some e \<and>
             last (snapshots (snd (redo (snd (undo w))))) = (image e, Current (nat (stpos w)))"
    if "0 < stpos w"
    using that b by (simp add: undo_eq redo_eq current_def in_bounds_def)
  have 3: "stpos (snd (undo (snd (redo w)))) = stpos w" if "stpos w < int (length (stack w)) - 1"
    using that b by (auto simp: redo_stpos undo_stpos in_bounds_def)
  show ?thesis
    using 1 2 3 by simp
qed


theorem undo_redo_inverse_witness:
  "0 < stpos (run sample_toDataURL [Op_init, Op_save None, Op_save None, Op_undo] sample_world) \<and>
   stpos (run sample_toDataURL [Op_init, Op_save None, Op_save None, Op_undo] sample_world)
     < int (length (stack (run sample_toDataURL [Op_init, Op_save None, Op_save None, Op_undo]
          sample_world))) - 1 \<and>
   stpos (snd (redo (snd (undo
     (run sample_toDataURL [Op_init, Op_save None, Op_save None, Op_undo] sample_world))))) = 1 \<and>
   stpos (snd (undo (snd (redo
     (run sample_toDataURL [Op_init, Op_save None, Op_save None, Op_undo] sample_world))))) = 1"
  using undo_redo_inverse [of
      "run sample_toDataURL [Op_init, Op_save None, Op_save None, Op_undo] sample_world"
      sample_toDataURL "[Op_init, Op_save None, Op_save None, Op_undo]" "[]" sample_sketch]
  by (simp add: eval_defs)

text \<open>
  Claim C5. In any state, \<open>undo\<close> with \<open>stpos \<le> 0\<close> and \<open>redo\<close> with
  \<open>stpos \<ge> stack.length - 1\<close> return \<open>this\<close> and change nothing: not the position,
  not the stack, not the sketch and its canvas, not the strokes.
\<close>

theorem undo_redo_boundary_noop:
  "(stpos w \<le> 0 \<longrightarrow> undo w = (Inr RThis, w)) \<and>
   (int (length (stack w)) - 1 \<le> stpos w \<longrightarrow> redo w = (Inr RThis, w))"
  by (simp add: undo_def redo_def)

theorem undo_redo_boundary_noop_witness:
  "stpos (snd (init sample_toDataURL sample_world)) \<le> 0 \<and>
   int (length (stack (snd (init sample_toDataURL sample_world)))) - 1
     \<le> stpos (snd (init sample_toDataURL sample_world)) \<and>
   undo (snd (init sample_toDataURL sample_world)) =
     (Inr RThis, snd (init sample_toDataURL sample_world)) \<and>
   redo (snd (init sample_toDataURL sample_world)) =
     (Inr RThis, snd (init sample_toDataURL sample_world))"
  using undo_redo_boundary_noop [of "snd (init sample_toDataURL sample_world)"]
  by (simp add: init_def save_def multitouch_def sample_world_def MementoCanvas_def)

subsection \<open>Keyboard shortcuts\<close>

text \<open>
  Claim C8. With \<open>ctrlKey\<close> set, key code 26 does what \<open>redo\<close> does when \<open>shiftKey\<close>
  is set and what \<open>undo\<close> does when it is not, and key code 25 does what \<open>redo\<close> does:
  the same state afterwards, the same exception if any, and nothing returned. Any other
  event, and any event without \<open>ctrlKey\<close>, changes nothing, also where \<open>undo\<close> or
  \<open>redo\<close> would.
\<close>

theorem keyManager_dispatch:
  "(ctrlKey ev \<and> which ev = 26 \<and> shiftKey ev \<longrightarrow>
      snd (keyManager ev w) = snd (redo w) \<and>
      fst (keyManager ev w) = map_sum id (\<lambda>r. RUndefined) (fst (redo w))) \<and>
   (ctrlKey ev \<and> which ev = 26 \<and> \<not> shiftKey ev \<longrightarrow>
      snd (keyManager ev w) = snd (undo w) \<and>
      fst (keyManager ev w) = map_sum id (\<lambda>r. RUndefined) (fst (undo w))) \<and>
   (ctrlKey ev \<and> which ev = 25 \<longrightarrow>
      snd (keyManager ev w) = snd (redo w) \<and>
      fst (keyManager ev w) = map_sum id (\<lambda>r. RUndefined) (fst (redo w))) \<and>
   (\<not> (ctrlKey ev \<and> (which ev = 26 \<or> which ev = 25)) \<longrightarrow>
      keyManager ev w = (Inr RUndefined, w))"
  by (auto simp: keyManager_snd keyManager_fst) (auto simp: keyManager_def)


theorem keyManager_dispatch_witness:
  "ctrlKey \<lparr>ctrlKey = True, shiftKey = False, which = 26\<rparr> \<and>
   which \<lparr>ctrlKey = True, shiftKey = False, which = 26\<rparr> = 26 \<and>
   \<not> shiftKey \<lparr>ctrlKey = True, shiftKey = False, which = 26\<rparr> \<and>
   snd (keyManager \<lparr>ctrlKey = True, shiftKey = False, which = 26\<rparr>
          (run sample_toDataURL [Op_init, Op_save None] sample_world)) =
     snd (undo (run sample_toDataURL [Op_init, Op_save None] sample_world)) \<and>
   stpos (snd (keyManager \<lparr>ctrlKey = True, shiftKey = False, which = 26\<rparr>
          (run sample_toDataURL [Op_init, Op_save None] sample_world))) = 0 \<and>
   keyManager \<lparr>ctrlKey = False, shiftKey = False, which = 26\<rparr>
          (run sample_toDataURL [Op_init, Op_save None] sample_world) =
     (Inr RUndefined, run sample_toDataURL [Op_init, Op_save None] sample_world)"
  using keyManager_dispatch [of "\<lparr>ctrlKey = True, shiftKey = False, which = 26\<rparr>"
      "run sample_toDataURL [Op_init, Op_save None] sample_world"]
    keyManager_dispatch [of "\<lparr>ctrlKey = False, shiftKey = False, which = 26\<rparr>"
      "run sample_toDataURL [Op_init, Op_save None] sample_world"]
  by (simp add: eval_defs)


subsection \<open>Reading the current state\<close>

lemma json_copy_id: "json_value t \<Longrightarrow> json_copy t = t"
proof (induction t)
  case (Leaf v)
  then show ?case
    by (cases v) simp_all
next
  case (Arr xs)
  then have "\<forall>x \<in> set xs. json_copy x = x"
    by (simp add: list_all_iff)
  then show ?case
    by (simp add: map_idI)
next
  case (Obj ps)
  then have all: "\<forall>p \<in> set ps. json_value (snd p)"
    by (auto simp: list_all_iff)
  then have keep: "filter (\<lambda>(k, v). v \<noteq> Leaf JUndefined) ps = ps"
    by (auto intro!: filter_True)
  have "\<forall>p \<in> set ps. (case p of (k, v) \<Rightarrow> (k, json_copy v)) = p"
  proof
    fix p
    assume p: "p \<in> set ps"
    obtain k v where kv: "p = (k, v)"
      by (cases p)
    have "json_copy v = v"
      using Obj.IH [of p v] p kv all by auto
    then show "(case p of (k, v) \<Rightarrow> (k, json_copy v)) = p"
      by (simp add: kv)
  qed
  then show ?case
    using keep by (simp add: map_idI)
next
  case (ImgElem s)
  then show ?case
    by simp
qed

lemma exec_nonempty: "stack w \<noteq> [] \<Longrightarrow> stack (snd (exec enc op w)) \<noteq> []"
  using exec_stack [of enc op w] by (auto dest: arg_cong [where f = length])

lemma run_nonempty: "stack w \<noteq> [] \<Longrightarrow> stack (run enc ops w) \<noteq> []"
  by (induction ops arbitrary: w) (simp_all add: exec_nonempty)

lemma init_reset_nonempty:
  "op0 = Op_init \<or> op0 = Op_reset \<Longrightarrow> stack (snd (exec enc op0 w)) \<noteq> []"
  by (auto simp: init_def save_stack multitouch_def reset_stack)

lemma filter_same_length: "length (filter P xs) = length xs \<Longrightarrow> filter P xs = xs"
proof (induction xs)
  case Nil
  show ?case
    by simp
next
  case (Cons x xs)
  have le: "length (filter P xs) \<le> length xs"
    by (rule length_filter_le)
  show ?case
  proof (cases "P x")
    case True
    with Cons show ?thesis
      by simp
  next
    case False
    with Cons.prems le show ?thesis
      by simp
  qed
qed

lemma json_copy_fixed: "json_copy t = t \<Longrightarrow> json_value t"
proof (induction t)
  case (Leaf v)
  then show ?case
    by (cases v) simp_all
next
  case (Arr xs)
  then have "map json_copy xs = map id xs"
    by simp
  then have "\<forall>x \<in> set xs. json_copy x = x"
    unfolding map_eq_conv by simp
  with Arr.IH show ?case
    by (simp add: list_all_iff)
next
  case (Obj ps)
  let ?keep = "filter (\<lambda>(k, v). v \<noteq> Leaf JUndefined) ps"
  from Obj.prems have eq: "map (\<lambda>(k, v). (k, json_copy v)) ?keep = ps"
    by simp
  have "length ?keep = length ps"
    using arg_cong [OF eq, of length] by simp
  then have keep: "?keep = ps"
    by (rule filter_same_length)
  with eq have "map (\<lambda>(k, v). (k, json_copy v)) ps = map id ps"
    by simp
  then have fixed: "\<forall>p \<in> set ps. (case p of (k, v) \<Rightarrow> (k, json_copy v)) = p"
    unfolding map_eq_conv by simp
  have "json_value (snd p)" if "p \<in> set ps" for p
  proof -
    obtain k v where kv: "p = (k, v)"
      by (cases p)
    have "json_copy v = v"
      using fixed that kv by auto
    then show ?thesis
      using Obj.IH [of p v] that kv by auto
  qed
  then show ?case
    by (auto simp: list_all_iff)
next
  case (ImgElem s)
  then show ?case
    by simp
qed

lemma json_copy_entry_tree:
  "json_copy (entry_tree e) =
     Obj [(''image'', Leaf (JStr (image e))),
          (''strokes'', Arr (map json_copy (strokes e))),
          (''callStack'', Arr (map (\<lambda>c. json_copy (call_entry_tree c)) (entry_callStack e)))]"
  by (simp add: entry_tree_def comp_def)

text \<open>
  Claim C9, as amended. In every state reached from a new \<open>MementoCanvas\<close>: with
  \<open>stpos \<ge> 0\<close>, \<open>state()\<close> returns the JSON copy of \<open>stack[stpos]\<close>, a value of its
  own with the image and the copies of the strokes and of the replay log, and leaves the
  state as it is. The copy equals the entry exactly when the entry holds only what JSON
  represents (strings, finite numbers, booleans, \<open>null\<close>, arrays and plain objects of
  these) in its strokes and its replay log, and differs from it otherwise. With
  \<open>stpos = -1\<close>, before any save, \<open>state()\<close> throws. Once \<open>init\<close> or \<open>reset\<close> has
  run, \<open>state()\<close> returns after any further sequence of steps.
\<close>

theorem state_json_copy:
  assumes "w = run toDataURL ops (MementoCanvas strokes0 sketch0)"
  shows "(0 \<le> stpos w \<longrightarrow>
            state w = (Inr (RValue (json_copy (entry_tree (stack w ! nat (stpos w))))), w) \<and>
            json_copy (entry_tree (stack w ! nat (stpos w))) =
              Obj [(''image'', Leaf (JStr (image (stack w ! nat (stpos w))))),
                   (''strokes'', Arr (map json_copy (strokes (stack w ! nat (stpos w))))),
                   (''callStack'',
                    Arr (map (\<lambda>c. json_copy (call_entry_tree c))
                           (entry_callStack (stack w ! nat (stpos w)))))] \<and>
            (state w = (Inr (RValue (entry_tree (stack w ! nat (stpos w)))), w)) =
              json_value (entry_tree (stack w ! nat (stpos w))) \<and>
            json_value (entry_tree (stack w ! nat (stpos w))) =
              (list_all json_value (strokes (stack w ! nat (stpos w))) \<and>
               list_all (\<lambda>c. json_value (call_entry_tree c))
                 (entry_callStack (stack w ! nat (stpos w))))) \<and>
         (stpos w = - 1 \<longrightarrow> state w = (Inl SyntaxError, w)) \<and>
         (op0 = Op_init \<or> op0 = Op_reset \<longrightarrow>
            (\<exists>v. state (run toDataURL ops' (snd (exec toDataURL op0 w))) =
               (Inr (RValue v), run toDataURL ops' (snd (exec toDataURL op0 w)))))"
proof -
  have b: "in_bounds w"
    unfolding assms by (rule run_in_bounds [OF MementoCanvas_in_bounds])
  have 1: "state w = (Inr (RValue (json_copy (entry_tree (stack w ! nat (stpos w))))), w)"
    if "0 \<le> stpos w"
    using that b by (simp add: state_def current_def in_bounds_def)
  have eq: "(json_copy t = t) = json_value t" for t
    using json_copy_id json_copy_fixed by blast
  have 2: "state w = (Inl SyntaxError, w)" if "stpos w = - 1"
    using that by (simp add: state_def current_def)
  have 3: "\<exists>v. state (run toDataURL ops' (snd (exec toDataURL op0 w))) =
               (Inr (RValue v), run toDataURL ops' (snd (exec toDataURL op0 w)))"
    if "op0 = Op_init \<or> op0 = Op_reset"
  proof -
    let ?w' = "run toDataURL ops' (snd (exec toDataURL op0 w))"
    have "in_bounds ?w'"
      by (intro run_in_bounds exec_in_bounds b)
    moreover have "stack ?w' \<noteq> []"
      by (intro run_nonempty init_reset_nonempty that)
    ultimately show ?thesis
      by (simp add: state_def current_def in_bounds_def)
  qed
  have 4: "json_value (entry_tree e) =
      (list_all json_value (strokes e) \<and>
       list_all (\<lambda>c. json_value (call_entry_tree c)) (entry_callStack e))" for e
    by (simp add: entry_tree_def list_all_iff)
  have 5: "(state w = (Inr (RValue (entry_tree (stack w ! nat (stpos w)))), w)) =
      json_value (entry_tree (stack w ! nat (stpos w)))" if "0 \<le> stpos w"
    unfolding 1 [OF that] using eq [of "entry_tree (stack w ! nat (stpos w))"] by simp
  show ?thesis
    using 1 2 3 5 4 [of "stack w ! nat (stpos w)"]
      json_copy_entry_tree [of "stack w ! nat (stpos w)"]
    by blast
qed


theorem state_json_copy_witness:
  "0 \<le> stpos (run sample_toDataURL [Op_init, Op_widget [sample_stroke] sample_sketch, Op_save None]
            sample_world) \<and>
   json_value (entry_tree (stack (run sample_toDataURL
       [Op_init, Op_widget [sample_stroke] sample_sketch, Op_save None] sample_world) ! 1)) \<and>
   fst (state (run sample_toDataURL [Op_init, Op_widget [sample_stroke] sample_sketch, Op_save None]
            sample_world)) =
     Inr (RValue (entry_tree
       \<lparr>image = ''######'', strokes = [sample_stroke], entry_callStack = callStack sample_sketch\<rparr>)) \<and>
   stpos sample_world = - 1 \<and>
   fst (state sample_world) = Inl SyntaxError \<and>
   (\<exists>v. fst (state (run sample_toDataURL [Op_undo] (snd (exec sample_toDataURL Op_init sample_world)))) =
      Inr (RValue v))"
  using state_json_copy [of
      "run sample_toDataURL [Op_init, Op_widget [sample_stroke] sample_sketch, Op_save None] sample_world"
      sample_toDataURL "[Op_init, Op_widget [sample_stroke] sample_sketch, Op_save None]" "[]"
      sample_sketch Op_init "[]"]
    state_json_copy [of sample_world sample_toDataURL "[]" "[]" sample_sketch Op_init "[Op_undo]"]
  by (simp add: eval_defs snapshot_of_def entry_tree_def sample_toDataURL_def sample_sketch_def
      sample_stroke_def)

text \<open>
  The claim as it stands asks for a copy equal to the entry. It is not one when the sketch
  has drawn an image: \<open>drawImage\<close> logs the image element among the arguments of the
  call, and the JSON copy of an element is \<open>{}\<close>.
\<close>

theorem state_copy_not_equal:
  "0 \<le> stpos (run sample_toDataURL [Op_widget [] sketch_with_image, Op_init] sample_world) \<and>
   fst (state (run sample_toDataURL [Op_widget [] sketch_with_image, Op_init] sample_world)) \<noteq>
     Inr (RValue (entry_tree
       (stack (run sample_toDataURL [Op_widget [] sketch_with_image, Op_init] sample_world) !
        nat (stpos (run sample_toDataURL [Op_widget [] sketch_with_image, Op_init] sample_world)))))"
  by (simp add: eval_defs snapshot_of_def entry_tree_def sketch_with_image_def drawImage_def
      drawImage_onload_def native_def push_def return_this_def sample_sketch_def)


section \<open>Properties of the wrapper\<close>

subsection \<open>Statements and methods that are well behaved\<close>

lemma extends_refl [simp]: "extends s s"
  by (simp add: extends_def)

lemma extends_trans: "extends s s' \<Longrightarrow> extends s' s'' \<Longrightarrow> extends s s''"
  by (auto simp: extends_def)


lemma ok_stmt_native: "ok_stmt (native name args)"
  by (auto simp: ok_stmt_def native_def constructed_def extends_def split: option.splits)

lemma ok_stmt_set_context_prop: "ok_stmt (set_context_prop p v)"
  by (auto simp: ok_stmt_def set_context_prop_def constructed_def extends_def split: option.splits)

lemma ok_stmt_push: "ok_stmt (push e)"
  by (auto simp: ok_stmt_def push_def constructed_def extends_def)

lemma ok_method_return_this: "ok_method return_this"
  by (simp add: ok_method_def ok_stmt_def return_this_def)

lemma block_Cons:
  "ms \<noteq> [] \<Longrightarrow>
   block (m # ms) s = (case m s of (Inl e, s') \<Rightarrow> (Inl e, s') | (Inr x, s') \<Rightarrow> block ms s')"
  by (cases ms) (simp_all split: prod.splits sum.splits)

lemma ok_stmt_block: "(\<forall>m \<in> set ms. ok_stmt m) \<Longrightarrow> ok_stmt (block ms)"
proof (induction ms)
  case Nil
  show ?case
    by (simp add: ok_stmt_def)
next
  case (Cons m ms)
  show ?case
  proof (cases ms)
    case Nil
    with Cons.prems show ?thesis
      by (simp add: ok_stmt_def)
  next
    case (Cons m' ms')
    have m: "ok_stmt m" and rest: "ok_stmt (block ms)"
      using Cons.prems Cons.IH by simp_all
    have eq: "block (m # ms) s =
        (case m s of (Inl e, s') \<Rightarrow> (Inl e, s') | (Inr x, s') \<Rightarrow> block ms s')" for s
      by (rule block_Cons) (simp add: Cons)
    show ?thesis
      unfolding ok_stmt_def
    proof (intro allI conjI impI)
      fix s
      obtain r s' where ms: "m s = (r, s')"
        by (cases "m s")
      have e1: "extends s s'"
        using m ms by (auto simp: ok_stmt_def dest: spec [of _ s])
      have e2: "extends s' (snd (block ms s'))"
        using rest by (simp add: ok_stmt_def)
      show "extends s (snd (block (m # ms) s))"
        using e1 e2 by (cases r) (auto simp: eq ms intro: extends_trans)
      assume c: "constructed s"
      then obtain v where r: "r = Inr v" and c': "constructed s'"
        using m ms by (auto simp: ok_stmt_def dest: spec [of _ s])
      have "constructed (snd (block ms s'))" and "\<exists>v. fst (block ms s') = Inr v"
        using rest c' by (simp_all add: ok_stmt_def)
      then show "constructed (snd (block (m # ms) s))" and "\<exists>v. fst (block (m # ms) s) = Inr v"
        by (simp_all add: eq ms r)
    qed
  qed
qed

lemma block_last_value:
  "\<forall>s v. fst (m s) = Inr v \<longrightarrow> v = RThis \<Longrightarrow> fst (block (ms @ [m]) s) = Inr v \<Longrightarrow> v = RThis"
proof (induction ms arbitrary: s)
  case Nil
  then show ?case
    by simp
next
  case (Cons m' ms)
  obtain r s' where ms: "m' s = (r, s')"
    by (cases "m' s")
  have eq: "block (m' # ms @ [m]) s =
      (case m' s of (Inl e, s') \<Rightarrow> (Inl e, s') | (Inr x, s') \<Rightarrow> block (ms @ [m]) s')"
    by (rule block_Cons) simp
  from Cons.prems(2) have "fst (block (ms @ [m]) s') = Inr v"
    by (cases r) (simp_all add: eq ms)
  then show ?case
    by (rule Cons.IH [OF Cons.prems(1)])
qed

lemma ok_method_block:
  "(\<forall>m \<in> set ms. ok_stmt m) \<Longrightarrow> ok_method m \<Longrightarrow> ok_method (block (ms @ [m]))"
  unfolding ok_method_def
  by (auto intro!: ok_stmt_block dest: block_last_value [rotated])

lemma ok_method_chain: "ok_method m1 \<Longrightarrow> ok_method m2 \<Longrightarrow> ok_method (chain m1 m2)"
  unfolding ok_method_def ok_stmt_def
proof (intro conjI allI impI)
  fix s
  assume a: "(\<forall>s. extends s (snd (m1 s)) \<and>
         (constructed s \<longrightarrow> constructed (snd (m1 s)) \<and> (\<exists>v. fst (m1 s) = Inr v))) \<and>
    (\<forall>s v. fst (m1 s) = Inr v \<longrightarrow> v = RThis)"
    and b: "(\<forall>s. extends s (snd (m2 s)) \<and>
         (constructed s \<longrightarrow> constructed (snd (m2 s)) \<and> (\<exists>v. fst (m2 s) = Inr v))) \<and>
    (\<forall>s v. fst (m2 s) = Inr v \<longrightarrow> v = RThis)"
  obtain r s' where ms: "m1 s = (r, s')"
    by (cases "m1 s")
  have r: "r = Inr RThis \<or> (\<exists>e. r = Inl e)"
    using a ms by (cases r) (auto dest: spec [of _ s])
  have e1: "extends s s'"
    using a ms by (auto dest: spec [of _ s])
  have eq: "chain m1 m2 s = (case r of Inl e \<Rightarrow> (Inl e, s') | Inr _ \<Rightarrow> m2 s')"
    using r by (auto simp: chain_def ms)
  show "extends s (snd (chain m1 m2 s))"
    using e1 b by (cases r) (auto simp: eq intro: extends_trans)
  show "v = RThis" if "fst (chain m1 m2 s) = Inr v" for v
    using that b by (cases r) (auto simp: eq)
  assume c: "constructed s"
  then obtain v where rv: "r = Inr v" and c': "constructed s'"
    using a ms by (auto dest: spec [of _ s])
  show "constructed (snd (chain m1 m2 s))" and "\<exists>v. fst (chain m1 m2 s) = Inr v"
    using b c' by (simp_all add: eq rv)
qed


lemma saveGraphics_loop_ok: "ok_stmt (saveGraphics_loop os)"
  unfolding ok_stmt_def
proof (induction os)
  case Nil
  show ?case
    by simp
next
  case (Cons p os)
  obtain opt val where p: "p = (opt, val)"
    by (cases p)
  show ?case
  proof
    fix s :: jsketch
    let ?s' = "s\<lparr>data := Some (put_prop (the (data s)) opt val),
                  callStack := callStack s @ [Property opt val]\<rparr>"
    have step: "extends s ?s'" "constructed s \<Longrightarrow> constructed ?s'"
      by (simp_all add: extends_def constructed_def)
    have ih: "extends ?s' (snd (saveGraphics_loop os ?s'))"
      "constructed ?s' \<Longrightarrow> constructed (snd (saveGraphics_loop os ?s')) \<and>
         (\<exists>v. fst (saveGraphics_loop os ?s') = Inr v)"
      using Cons.IH by blast+
    have ih0: "extends s (snd (saveGraphics_loop os s))"
      "constructed s \<Longrightarrow> constructed (snd (saveGraphics_loop os s)) \<and>
         (\<exists>v. fst (saveGraphics_loop os s) = Inr v)"
      using Cons.IH by blast+
    show "extends s (snd (saveGraphics_loop (p # os) s)) \<and>
          (constructed s \<longrightarrow> constructed (snd (saveGraphics_loop (p # os) s)) \<and>
             (\<exists>v. fst (saveGraphics_loop (p # os) s) = Inr v))"
    proof (cases "data s")
      case None
      then show ?thesis
        using ih0 by (simp add: p constructed_def)
    next
      case (Some d)
      then show ?thesis
        using ih ih0 step extends_trans [OF step(1) ih(1)] by (simp add: p)
    qed
  qed
qed

lemma restoreGraphics_loop_ok: "ok_stmt (restoreGraphics_loop os)"
  unfolding ok_stmt_def
proof (induction os)
  case Nil
  show ?case
    by simp
next
  case (Cons p os)
  obtain opt val where p: "p = (opt, val)"
    by (cases p)
  show ?case
  proof
    fix s :: jsketch
    show "extends s (snd (restoreGraphics_loop (p # os) s)) \<and>
          (constructed s \<longrightarrow> constructed (snd (restoreGraphics_loop (p # os) s)) \<and>
             (\<exists>v. fst (restoreGraphics_loop (p # os) s) = Inr v))"
    proof (cases "ctx s")
      case None
      then show ?thesis
        by (simp add: p set_context_prop_def constructed_def)
    next
      case (Some tr)
      let ?s' = "s\<lparr>ctx := Some (tr @ [SetProp opt val])\<rparr>"
      have step: "extends s ?s'" "constructed s \<Longrightarrow> constructed ?s'"
        by (simp_all add: extends_def constructed_def)
      have ih: "extends ?s' (snd (restoreGraphics_loop os ?s'))"
        "constructed ?s' \<Longrightarrow> constructed (snd (restoreGraphics_loop os ?s')) \<and>
           (\<exists>v. fst (restoreGraphics_loop os ?s') = Inr v)"
        using Cons.IH by blast+
      show ?thesis
        using Some ih step extends_trans [OF step(1) ih(1)]
        by (simp add: p set_context_prop_def)
    qed
  qed
qed

lemma ok_method_block2: "ok_stmt m1 \<Longrightarrow> ok_method m \<Longrightarrow> ok_method (block [m1, m])"
  using ok_method_block [of "[m1]" m] by simp

lemma saveGraphics_ok: "ok_method (saveGraphics opts)"
  unfolding saveGraphics_def
  by (intro ok_method_block2 saveGraphics_loop_ok ok_method_return_this)

lemma ok_methodI:
  "(\<And>s. \<exists>m'. ok_method m' \<and> m s = m' s) \<Longrightarrow> ok_method m"
  unfolding ok_method_def ok_stmt_def by metis

lemma restoreGraphics_ok: "ok_method restoreGraphics"
proof (rule ok_methodI)
  fix s :: jsketch
  have "ok_method (block [restoreGraphics_loop (case data s of None \<Rightarrow> [] | Some d \<Rightarrow> d), return_this])"
    by (intro ok_method_block2 restoreGraphics_loop_ok ok_method_return_this)
  then show "\<exists>m'. ok_method m' \<and> restoreGraphics s = m' s"
    unfolding restoreGraphics_def by blast
qed


lemma ok_method_block3:
  "ok_stmt a \<Longrightarrow> ok_stmt b \<Longrightarrow> ok_method m \<Longrightarrow> ok_method (block [a, b, m])"
  using ok_method_block [of "[a, b]" m] by simp

lemma ok_method_block4:
  "ok_stmt a \<Longrightarrow> ok_stmt b \<Longrightarrow> ok_stmt c \<Longrightarrow> ok_method m \<Longrightarrow> ok_method (block [a, b, c, m])"
  using ok_method_block [of "[a, b, c]" m] by simp

lemma ok_method_block5:
  "ok_stmt a \<Longrightarrow> ok_stmt b \<Longrightarrow> ok_stmt c \<Longrightarrow> ok_stmt d \<Longrightarrow> ok_method m \<Longrightarrow>
   ok_method (block [a, b, c, d, m])"
  using ok_method_block [of "[a, b, c, d]" m] by simp

lemma ok_method_block6:
  "ok_stmt a \<Longrightarrow> ok_stmt b \<Longrightarrow> ok_stmt c \<Longrightarrow> ok_stmt d \<Longrightarrow> ok_stmt e \<Longrightarrow> ok_method m \<Longrightarrow>
   ok_method (block [a, b, c, d, e, m])"
  using ok_method_block [of "[a, b, c, d, e]" m] by simp

lemmas ok_blocks = ok_method_block2 ok_method_block3 ok_method_block4 ok_method_block5
  ok_method_block6 ok_method_return_this ok_stmt_native ok_stmt_push ok_stmt_set_context_prop





















lemma gradient_call_ok: "ok_stmt (gradient_call g name args)"
  by (auto simp: ok_stmt_def gradient_call_def constructed_def extends_def)












lemma pushes_ok: "ok_stmt (block (map (\<lambda>(opt, val). push (Property opt val)) os))"
  by (rule ok_stmt_block) (auto simp: ok_stmt_push)

lemma setDefaults_ok: "ok_method setDefaults"
proof (rule ok_methodI)
  fix s :: jsketch
  show "\<exists>m'. ok_method m' \<and> setDefaults s = m' s"
  proof (cases "data s")
    case None
    have "ok_method (\<lambda>s'. if data s' = None then (Inl TypeError, s') else return_this s')"
      by (simp add: ok_method_def ok_stmt_def constructed_def return_this_def)
    then show ?thesis
      using None unfolding setDefaults_def by (intro exI [of _ "\<lambda>s'. if data s' = None then (Inl TypeError, s') else return_this s'"]) simp
  next
    case (Some d)
    have "ok_method (block [block (map (\<lambda>(opt, val). push (Property opt val)) (default_options d)),
                     chain (saveGraphics (Some (default_options d))) restoreGraphics])"
      by (intro ok_blocks pushes_ok ok_method_chain saveGraphics_ok restoreGraphics_ok)
    then show ?thesis
      using Some unfolding setDefaults_def Let_def by (simp del: block.simps) blast
  qed
qed


lemma setContext_result:
  "setContext el s =
     (case el of
        ECanvas c \<Rightarrow> (Inr RThis, s\<lparr>canvas := el, ctx := Some (ctx2d c)\<rparr>)
      | ENull \<Rightarrow> (Inl (Error ''No canvas element specified.''), s)
      | EString sel \<Rightarrow> (if sel = [] then (Inl (Error ''No canvas element specified.''), s)
                       else (Inl TypeError, s\<lparr>canvas := el\<rparr>))
      | EOther \<Rightarrow> (Inl TypeError, s\<lparr>canvas := el\<rparr>))"
  by (cases el) (simp_all add: setContext_def)












lemma jSketch_result:
  "jSketch q el opts =
     (if \<not> truthy_elem el then Inl (Error ''Sketchable requires a DOM element.'')
      else
        (case (case el of EString sel \<Rightarrow> q sel | _ \<Rightarrow> el) of
           ECanvas c \<Rightarrow>
             (case setDefaults (blank\<lparr>canvas := ECanvas c, ctx := Some (ctx2d c),
                       stageWidth := width c, stageHeight := height c, data := opts,
                       callStack := []\<rparr>) of
                (Inl e, _) \<Rightarrow> Inl e
              | (Inr _, s2) \<Rightarrow> Inr s2)
         | ENull \<Rightarrow> Inl (Error ''No canvas element specified.'')
         | EString sel' \<Rightarrow>
             (if sel' = [] then Inl (Error ''No canvas element specified.'') else Inl TypeError)
         | EOther \<Rightarrow> Inl TypeError))"
  by (simp add: jSketch_def Let_def setContext_result split: elem.splits)

lemma constructor_data:
  "setDefaults (s\<lparr>data := None\<rparr>) = (Inl TypeError, s\<lparr>data := None\<rparr>)"
  by (simp add: setDefaults_def)

lemma constructor_constructed:
  assumes "data s = Some d" and "ctx s \<noteq> None" and "canvas s \<noteq> ENull"
  shows "\<exists>s'. setDefaults s = (Inr RThis, s') \<and> constructed s'"
proof -
  have c: "constructed s"
    using assms by (simp add: constructed_def)
  obtain r s' where r: "setDefaults s = (r, s')"
    by (cases "setDefaults s")
  have "constructed (snd (setDefaults s))" and "\<exists>v. fst (setDefaults s) = Inr v"
    and "\<forall>v. fst (setDefaults s) = Inr v \<longrightarrow> v = RThis"
    using setDefaults_ok c by (simp_all add: ok_method_def ok_stmt_def)
  then show ?thesis
    by (auto simp: r)
qed

lemma constructor_on_canvas:
  "\<exists>s'. setDefaults (blank\<lparr>canvas := ECanvas c, ctx := Some (ctx2d c),
             stageWidth := width c, stageHeight := height c, data := Some d,
             callStack := []\<rparr>) = (Inr RThis, s') \<and> constructed s'"
  by (rule constructor_constructed) simp_all


subsection \<open>The constructor\<close>

text \<open>
  Claim C10. The constructor throws \<open>'Sketchable requires a DOM element.'\<close> for a falsy
  \<open>elem\<close>. With \<open>options\<close> omitted it throws for every \<open>elem\<close>; on a canvas element
  the exception is the \<open>TypeError\<close> of reading \<open>this.data.fillStyle\<close> in
  \<open>setDefaults\<close>. With a canvas element, or a selector that finds one, and an options
  object it returns the instance.
\<close>

theorem constructor_preconditions:
  "(\<not> truthy_elem el \<longrightarrow> jSketch q el opts = Inl (Error ''Sketchable requires a DOM element.'')) \<and>
   (\<exists>e. jSketch q el None = Inl e) \<and>
   jSketch q (ECanvas c) None = Inl TypeError \<and>
   (\<exists>s. jSketch q (ECanvas c) (Some os) = Inr s) \<and>
   (sel \<noteq> [] \<and> q sel = ECanvas c \<longrightarrow> (\<exists>s. jSketch q (EString sel) (Some os) = Inr s))"
proof -
  have 1: "\<exists>e. jSketch q el None = Inl e"
    by (auto simp: jSketch_result setDefaults_def split: elem.splits)
  have 2: "jSketch q (ECanvas c) None = Inl TypeError"
    by (simp add: jSketch_result setDefaults_def)
  obtain s' where "setDefaults (blank\<lparr>canvas := ECanvas c, ctx := Some (ctx2d c),
             stageWidth := width c, stageHeight := height c, data := Some os,
             callStack := []\<rparr>) = (Inr RThis, s')"
    using constructor_on_canvas by blast
  then have 3: "\<exists>s. jSketch q (ECanvas c) (Some os) = Inr s"
    and 4: "sel \<noteq> [] \<and> q sel = ECanvas c \<longrightarrow> (\<exists>s. jSketch q (EString sel) (Some os) = Inr s)"
    by (auto simp: jSketch_result)
  show ?thesis
    using 1 2 3 4 by (simp add: jSketch_result)
qed

theorem constructor_preconditions_witness:
  "\<not> truthy_elem ENull \<and>
   jSketch (\<lambda>sel. ENull) ENull None = Inl (Error ''Sketchable requires a DOM element.'') \<and>
   jSketch (\<lambda>sel. ENull) (ECanvas sample_canvas) None = Inl TypeError \<and>
   jSketch (\<lambda>sel. ENull) (ECanvas sample_canvas) (Some []) = Inr sample_sketch \<and>
   ''#c'' \<noteq> [] \<and>
   (\<lambda>sel. if sel = ''#c'' then ECanvas sample_canvas else ENull) ''#c'' = ECanvas sample_canvas \<and>
   (\<exists>s. jSketch (\<lambda>sel. if sel = ''#c'' then ECanvas sample_canvas else ENull) (EString ''#c'')
          (Some []) = Inr s)"
  using constructor_preconditions [of ENull "\<lambda>sel. ENull" None sample_canvas "[]" "''#c''"]
    constructor_preconditions [of ENull "\<lambda>sel. if sel = ''#c'' then ECanvas sample_canvas else ENull"
      None sample_canvas "[]" "''#c''"]
  by (simp add: sample_constructed)

subsection \<open>What the methods return\<close>






subsection \<open>The replay log\<close>




























lemma truthy_not_NaN: "truthy v \<Longrightarrow> v \<noteq> JNaN"
  by auto

































end
